theory Spec2Isabelle
  imports Complex_Main
begin

section \<open>Data model of the adaptive testing engine (simple\_backend.py)\<close>

text \<open>
  Python floats are modelled as exact reals, Python ints as \<open>int\<close>, list lengths and
  counters as \<open>nat\<close>. Rounding is outside the model. Overflow to \<open>inf\<close> and \<open>nan\<close>
  are modelled for \<open>calculate_item_information\<close>, in the section on double-precision
  arithmetic; elsewhere they are outside the model.
\<close>

datatype py_error = IndexError | ValueError | ZeroDivisionError | OverflowError

text \<open>\<open>HTTPException(status_code, detail)\<close>.\<close>
datatype http_exception = HTTPException nat string

text \<open>The five trait identifiers (the keys of every per-dimension dictionary).\<close>
datatype dimension = Extraversion | Agreeableness | Conscientiousness | Neuroticism | Openness

text \<open>The list \<open>PERSONALITY_DIMENSIONS\<close>, in the order of the source.\<close>
definition PERSONALITY_DIMENSIONS :: "dimension list" where
  "PERSONALITY_DIMENSIONS = [Extraversion, Agreeableness, Conscientiousness, Neuroticism, Openness]"

text \<open>\<open>list(questions_db.keys())\<close>: the insertion order of the dictionary literal.\<close>
definition questions_db_keys :: "dimension list" where
  "questions_db_keys = [Openness, Conscientiousness, Extraversion, Agreeableness, Neuroticism]"

record IRTParameters =
  max_questions :: nat
  min_questions :: nat
  max_per_dimension :: nat
  min_per_dimension :: nat
  target_se :: real
  min_theta :: real
  max_theta :: real

text \<open>\<open>IRTParameters.__init__\<close>.\<close>
definition IRTParameters_init :: IRTParameters where
  "IRTParameters_init =
     \<lparr> max_questions = 50, min_questions = 25, max_per_dimension = 10,
       min_per_dimension = 5, target_se = 0.3, min_theta = - 3, max_theta = 3 \<rparr>"

record AdaptiveTestEngine =
  irt_params :: IRTParameters

text \<open>The global object \<open>adaptive_engine = AdaptiveTestEngine()\<close>.\<close>
definition adaptive_engine :: AdaptiveTestEngine where
  "adaptive_engine = \<lparr> irt_params = IRTParameters_init \<rparr>"

text \<open>An item of a session's pool (an entry of \<open>session["generated_questions"][dim]\<close>).
  The display text is \<open>q_text\<close>.\<close>
record question =
  question_id :: string
  q_text :: string
  difficulty :: real
  discrimination :: real
  reverse_scored :: bool

text \<open>The dictionary \<open>answered_question\<close> that \<open>submit_answer\<close> appends.\<close>
record answered_question =
  aq_question_id :: string
  aq_response :: int
  aq_difficulty :: real
  aq_discrimination :: real
  aq_reverse_scored :: bool

datatype session_status = Active | Completed

text \<open>The session dictionary; the demographic fields and the two timestamps are left out.\<close>
record session =
  name :: string
  status :: session_status
  current_dimension :: dimension
  questions_answered :: "dimension \<Rightarrow> answered_question list"
  theta :: "dimension \<Rightarrow> real"
  se :: "dimension \<Rightarrow> real"
  dimension_question_count :: "dimension \<Rightarrow> nat"
  generated_questions :: "dimension \<Rightarrow> question list"
  total_questions_answered :: nat

section \<open>IRT model\<close>

text \<open>True division, raising on a zero divisor.\<close>
definition py_div :: "real \<Rightarrow> real \<Rightarrow> py_error + real" where
  "py_div x y = (if y = 0 then Inl ZeroDivisionError else Inr (x / y))"

text \<open>\<open>AdaptiveTestEngine.calculate_item_information\<close> read in exact arithmetic: the
  body of the \<open>try\<close>, where only the division could fail, and the constant of the bare
  \<open>except\<close>. What the function does in double precision, where the exponential
  overflows and \<open>discrimination**2\<close> raises, is \<open>calculate_item_information_f64\<close>
  below.\<close>
definition calculate_item_information :: "real \<Rightarrow> real \<Rightarrow> real \<Rightarrow> real" where
  "calculate_item_information th b a =
     (let z = a * (th - b) in
      case py_div 1 (1 + exp (- z)) of
        Inl e \<Rightarrow> 0.1
      | Inr p \<Rightarrow> (let q = 1 - p; information = a\<^sup>2 * p * q in information))"

section \<open>Double-precision arithmetic, as far as overflow goes\<close>

text \<open>A double is a finite value, an infinity or not-a-number. A finite value is an exact
  real: rounding is not modelled, and the two zeros are not told apart. An operation whose
  exact result lies beyond the largest double \<open>DBL_MAX\<close> gives an infinity; Python float
  and numpy arithmetic do so without raising.\<close>
datatype float64 = Finite real | PosInf | NegInf | NaN

definition DBL_MAX :: real where
  "DBL_MAX = (2 - 1 / 2 ^ 52) * 2 ^ 1023"

text \<open>The double for the exact result \<open>x\<close> of an operation on finite values.\<close>
definition f64_of :: "real \<Rightarrow> float64" where
  "f64_of x = (if x > DBL_MAX then PosInf else if x < - DBL_MAX then NegInf else Finite x)"

fun f64_neg :: "float64 \<Rightarrow> float64" where
  "f64_neg (Finite x) = Finite (- x)"
| "f64_neg PosInf = NegInf"
| "f64_neg NegInf = PosInf"
| "f64_neg NaN = NaN"

fun f64_sign :: "float64 \<Rightarrow> int" where
  "f64_sign (Finite x) = (if x > 0 then 1 else if x < 0 then - 1 else 0)"
| "f64_sign PosInf = 1"
| "f64_sign NegInf = - 1"
| "f64_sign NaN = 0"

definition f64_inf :: "int \<Rightarrow> float64" where
  "f64_inf s = (if s > 0 then PosInf else if s < 0 then NegInf else NaN)"

fun f64_add :: "float64 \<Rightarrow> float64 \<Rightarrow> float64" where
  "f64_add (Finite x) (Finite y) = f64_of (x + y)"
| "f64_add NaN y = NaN"
| "f64_add x NaN = NaN"
| "f64_add PosInf NegInf = NaN"
| "f64_add NegInf PosInf = NaN"
| "f64_add PosInf y = PosInf"
| "f64_add NegInf y = NegInf"
| "f64_add x PosInf = PosInf"
| "f64_add x NegInf = NegInf"

definition f64_sub :: "float64 \<Rightarrow> float64 \<Rightarrow> float64" where
  "f64_sub x y = f64_add x (f64_neg y)"

fun f64_mul :: "float64 \<Rightarrow> float64 \<Rightarrow> float64" where
  "f64_mul (Finite x) (Finite y) = f64_of (x * y)"
| "f64_mul NaN y = NaN"
| "f64_mul x NaN = NaN"
| "f64_mul x y = f64_inf (f64_sign x * f64_sign y)"

text \<open>Division of numpy doubles: a zero divisor gives an infinity or not-a-number, and
  no exception.\<close>
fun f64_div :: "float64 \<Rightarrow> float64 \<Rightarrow> float64" where
  "f64_div (Finite x) (Finite y) = (if y = 0 then f64_inf (f64_sign (Finite x)) else f64_of (x / y))"
| "f64_div NaN y = NaN"
| "f64_div x NaN = NaN"
| "f64_div (Finite x) y = Finite 0"
| "f64_div x (Finite y) = f64_inf (f64_sign x * (if y < 0 then - 1 else 1))"
| "f64_div x y = NaN"

text \<open>\<open>np.exp\<close>: on overflow it returns \<open>inf\<close> and issues a RuntimeWarning, which is
  not an exception.\<close>
fun np_exp :: "float64 \<Rightarrow> float64" where
  "np_exp (Finite x) = f64_of (exp x)"
| "np_exp PosInf = PosInf"
| "np_exp NegInf = Finite 0"
| "np_exp NaN = NaN"

text \<open>\<open>x ** 2\<close> on a Python float: unlike the other operations it raises
  \<open>OverflowError\<close> when the result is out of range.\<close>
fun py_square :: "float64 \<Rightarrow> py_error + float64" where
  "py_square (Finite x) = (if x\<^sup>2 > DBL_MAX then Inl OverflowError else Inr (Finite (x\<^sup>2)))"
| "py_square PosInf = Inr PosInf"
| "py_square NegInf = Inr PosInf"
| "py_square NaN = Inr NaN"

text \<open>\<open>AdaptiveTestEngine.calculate_item_information\<close> in double precision. The
  statements of the \<open>try\<close> run in their order, so \<open>z\<close>, \<open>p\<close> and \<open>q\<close> are computed
  before \<open>discrimination**2\<close> can raise; the bare \<open>except\<close> turns that exception into
  the constant 0.1.\<close>
definition calculate_item_information_f64 :: "float64 \<Rightarrow> float64 \<Rightarrow> float64 \<Rightarrow> float64" where
  "calculate_item_information_f64 th b a =
     (let z = f64_mul a (f64_sub th b);
          p = f64_div (Finite 1) (f64_add (Finite 1) (np_exp (f64_neg z)));
          q = f64_sub (Finite 1) p
      in case py_square a of
           Inl e \<Rightarrow> Finite 0.1
         | Inr a2 \<Rightarrow> (let information = f64_mul (f64_mul a2 p) q in information))"

section \<open>Ability estimator\<close>

text \<open>The inner loop of \<open>estimate_theta\<close> over \<open>enumerate(responses)\<close>: it accumulates
  \<open>(likelihood_derivative, information_sum)\<close>, and \<open>difficulties[i]\<close> or
  \<open>discriminations[i]\<close> raises when that list is too short.\<close>
fun score_and_information ::
  "real \<Rightarrow> int list \<Rightarrow> real list \<Rightarrow> real list \<Rightarrow> real \<times> real \<Rightarrow> py_error + real \<times> real" where
  "score_and_information th [] ds as acc = Inr acc"
| "score_and_information th (response # rs) (d # ds) (a # as) (ld, info) =
     (let z = a * (th - d);
          p = 1 / (1 + exp (- z))
      in score_and_information th rs ds as
           (ld + a * (real_of_int response - p), info + a\<^sup>2 * p * (1 - p)))"
| "score_and_information th (response # rs) ds as acc = Inl IndexError"

text \<open>The loop \<open>for iteration in range(50)\<close>, with the number of iterations still to run
  as first argument. The state is \<open>(theta, information_sum, k)\<close>; \<open>k\<close> counts the
  executions of the loop body and is not a variable of the source.\<close>
fun newton_raphson ::
  "IRTParameters \<Rightarrow> nat \<Rightarrow> int list \<Rightarrow> real list \<Rightarrow> real list \<Rightarrow> real \<times> real \<times> nat
     \<Rightarrow> py_error + real \<times> real \<times> nat" where
  "newton_raphson P 0 rs ds as st = Inr st"
| "newton_raphson P (Suc n) rs ds as (th, info0, k) =
     (case score_and_information th rs ds as (0, 0) of
        Inl e \<Rightarrow> Inl e
      | Inr (likelihood_derivative, information_sum) \<Rightarrow>
          if information_sum > 0 then
            (let theta_new = th + likelihood_derivative / information_sum in
             if \<bar>theta_new - th\<bar> < 0.001 then Inr (th, information_sum, Suc k)
             else newton_raphson P n rs ds as
                    (max (min_theta P) (min (max_theta P) theta_new), information_sum, Suc k))
          else Inr (th, information_sum, Suc k))"

text \<open>\<open>AdaptiveTestEngine.estimate_theta\<close>, returning \<open>((theta, se), k)\<close>.\<close>
definition estimate_theta_traced ::
  "AdaptiveTestEngine \<Rightarrow> int list \<Rightarrow> real list \<Rightarrow> real list \<Rightarrow> py_error + (real \<times> real) \<times> nat" where
  "estimate_theta_traced self responses difficulties discriminations =
     (if responses = [] then Inr ((0, 1), 0)
      else case newton_raphson (irt_params self) 50 responses difficulties discriminations (0, 0, 0) of
             Inl e \<Rightarrow> Inl e
           | Inr (th, information_sum, k) \<Rightarrow>
               Inr ((th, 1 / sqrt (max information_sum 0.1)), k))"

definition estimate_theta ::
  "AdaptiveTestEngine \<Rightarrow> int list \<Rightarrow> real list \<Rightarrow> real list \<Rightarrow> py_error + real \<times> real" where
  "estimate_theta self responses difficulties discriminations =
     map_sum id fst (estimate_theta_traced self responses difficulties discriminations)"

text \<open>The number of Newton-Raphson iterations a call of \<open>estimate_theta\<close> performs.\<close>
definition estimate_theta_iterations ::
  "AdaptiveTestEngine \<Rightarrow> int list \<Rightarrow> real list \<Rightarrow> real list \<Rightarrow> py_error + nat" where
  "estimate_theta_iterations self responses difficulties discriminations =
     map_sum id snd (estimate_theta_traced self responses difficulties discriminations)"

section \<open>Stopping controller\<close>

text \<open>\<open>AdaptiveTestEngine.should_stop_testing\<close>, with the order of its tests.\<close>
definition should_stop_testing ::
  "AdaptiveTestEngine \<Rightarrow> real \<Rightarrow> nat \<Rightarrow> answered_question list \<Rightarrow> bool" where
  "should_stop_testing self se_value num_questions dimension_questions =
     (if se_value \<le> target_se (irt_params self) then True
      else if length dimension_questions \<ge> max_per_dimension (irt_params self) then True
      else if num_questions \<ge> max_questions (irt_params self) then True
      else if length dimension_questions < min_per_dimension (irt_params self) then False
      else False)"

text \<open>The test of \<open>submit_answer\<close> "dimension needs more questions", for one dimension.\<close>
definition dimension_needs_more :: "session \<Rightarrow> dimension \<Rightarrow> bool" where
  "dimension_needs_more s dm =
     (let dim_questions = questions_answered s dm; dim_se = se s dm in
      length dim_questions < min_per_dimension (irt_params adaptive_engine)
      \<or> (dim_se > target_se (irt_params adaptive_engine)
         \<and> length dim_questions < max_per_dimension (irt_params adaptive_engine)))"

text \<open>The loop of \<open>submit_answer\<close> that computes \<open>all_dimensions_complete\<close>, with its
  \<open>break\<close>.\<close>
fun all_dimensions_complete :: "session \<Rightarrow> dimension list \<Rightarrow> bool" where
  "all_dimensions_complete s [] = True"
| "all_dimensions_complete s (dm # dims) =
     (if dimension_needs_more s dm then False else all_dimensions_complete s dims)"

section \<open>Session state machine\<close>

text \<open>The session dictionary that \<open>create_session\<close> stores, for the item pools
  \<open>all_questions\<close> obtained from the question generator.\<close>
definition create_session :: "string \<Rightarrow> (dimension \<Rightarrow> question list) \<Rightarrow> session" where
  "create_session nm all_questions =
     \<lparr> name = nm, status = Active, current_dimension = Openness,
       questions_answered = (\<lambda>d. []), theta = (\<lambda>d. 0), se = (\<lambda>d. 1),
       dimension_question_count = (\<lambda>d. 0), generated_questions = all_questions,
       total_questions_answered = 0 \<rparr>"

text \<open>\<open>dimensions[current_index + 1]\<close> when \<open>current_index + 1 < len(dimensions)\<close>, for
  \<open>current_index = dimensions.index(current_dimension)\<close>.\<close>
fun next_in :: "dimension list \<Rightarrow> dimension \<Rightarrow> dimension option" where
  "next_in [] c = None"
| "next_in [x] c = None"
| "next_in (x # y # ys) c = (if x = c then Some y else next_in (y # ys) c)"

text \<open>\<open>random.choice(seq)\<close> with the random source made a parameter: \<open>r\<close> selects the
  index, and an empty sequence raises.\<close>
definition random_choice :: "nat \<Rightarrow> 'a list \<Rightarrow> py_error + 'a" where
  "random_choice r xs = (if xs = [] then Inl IndexError else Inr (xs ! (r mod length xs)))"

text \<open>\<open>min(xs, key=key)\<close>: the first element with the least key; an empty sequence
  raises.\<close>
fun min_from :: "('a \<Rightarrow> real) \<Rightarrow> 'a \<Rightarrow> 'a list \<Rightarrow> 'a" where
  "min_from key best [] = best"
| "min_from key best (x # xs) = (if key x < key best then min_from key x xs else min_from key best xs)"

definition py_min :: "('a \<Rightarrow> real) \<Rightarrow> 'a list \<Rightarrow> py_error + 'a" where
  "py_min key xs = (case xs of [] \<Rightarrow> Inl ValueError | x # rest \<Rightarrow> Inr (min_from key x rest))"

text \<open>The list \<open>answered_ids\<close> of \<open>get_current_question\<close>.\<close>
definition answered_ids :: "session \<Rightarrow> dimension \<Rightarrow> string list" where
  "answered_ids s d = map aq_question_id (questions_answered s d)"

text \<open>The list \<open>available_questions\<close> of \<open>get_current_question\<close>.\<close>
definition available_questions :: "session \<Rightarrow> dimension \<Rightarrow> question list" where
  "available_questions s d =
     filter (\<lambda>q. question_id q \<notin> set (answered_ids s d)) (generated_questions s d)"

text \<open>The block "Adaptive question selection" of \<open>get_current_question\<close>, for the
  dimension \<open>d\<close> that is current when it runs.\<close>
definition select_question :: "nat \<Rightarrow> session \<Rightarrow> dimension \<Rightarrow> py_error + question" where
  "select_question r s d =
     (let th = theta s d;
          available = available_questions s d
      in if length (answered_ids s d) = 0 then
           (let medium_questions = filter (\<lambda>q. - 0.5 \<le> difficulty q \<and> difficulty q \<le> 0.5) available
            in if medium_questions = [] then random_choice r available
               else random_choice r medium_questions)
         else py_min (\<lambda>q. \<bar>difficulty q - th\<bar>) available)"

text \<open>The characters on which \<open>str.split()\<close> separates words, within ASCII.\<close>
definition py_isspace :: "char \<Rightarrow> bool" where
  "py_isspace c = (of_char c \<in> {9, 10, 11, 12, 13, 28, 29, 30, 31, (32::nat)})"

text \<open>\<open>session["name"].split()[0] if session["name"] else ""\<close> raises when the name is
  not empty and has no word. The rewriting of the display text that follows cannot raise
  and is left out.\<close>
definition first_name_raises :: "string \<Rightarrow> bool" where
  "first_name_raises nm = (if nm = [] then False else list_all py_isspace nm)"

text \<open>\<open>get_current_question\<close> for a session that exists: the session as the call leaves
  it, and the exception raised or the item returned. Every exception other than an
  \<open>HTTPException\<close> is turned into status 500.\<close>
definition get_current_question :: "nat \<Rightarrow> session \<Rightarrow> session \<times> (http_exception + question)" where
  "get_current_question r s =
     (let advance =
            (if dimension_question_count s (current_dimension s)
                  \<ge> max_per_dimension (irt_params adaptive_engine)
             then (case next_in questions_db_keys (current_dimension s) of
                     Some d \<Rightarrow> Inr (s\<lparr>current_dimension := d\<rparr>)
                   | None \<Rightarrow> Inl (s\<lparr>status := Completed\<rparr>))
             else Inr s)
      in case advance of
           Inl s' \<Rightarrow> (s', Inl (HTTPException 404 ''No more questions''))
         | Inr s' \<Rightarrow>
             (case select_question r s' (current_dimension s') of
                Inl e \<Rightarrow> (s', Inl (HTTPException 500 ''Error getting question''))
              | Inr next_question \<Rightarrow>
                  if first_name_raises (name s')
                  then (s', Inl (HTTPException 500 ''Error getting question''))
                  else (s', Inr next_question)))"

text \<open>The search of \<open>submit_answer\<close> for the submitted identifier in the pool of the
  current dimension: the first match.\<close>
fun find_question :: "string \<Rightarrow> question list \<Rightarrow> question option" where
  "find_question qid [] = None"
| "find_question qid (q # qs) = (if question_id q = qid then Some q else find_question qid qs)"

text \<open>The loop of \<open>submit_answer\<close> that fills \<open>responses\<close>, \<open>difficulties\<close> and
  \<open>discriminations\<close> by \<open>append\<close>, with the three lists built so far as accumulator.\<close>
fun extract_response_data ::
  "answered_question list \<Rightarrow> int list \<times> real list \<times> real list \<Rightarrow> int list \<times> real list \<times> real list" where
  "extract_response_data [] acc = acc"
| "extract_response_data (aq # aqs) (responses, difficulties, discriminations) =
     (let response_value = aq_response aq;
          response_value = (if aq_reverse_scored aq then 6 - response_value else response_value)
      in extract_response_data aqs
           (responses @ [if response_value \<ge> 4 then 1 else 0],
            difficulties @ [aq_difficulty aq],
            discriminations @ [aq_discrimination aq]))"

text \<open>The block of \<open>submit_answer\<close> "Record the answer with question details": the
  record is appended to the answers of the current dimension and the count of that
  dimension is set to their number.\<close>
definition record_answer :: "string \<Rightarrow> int \<Rightarrow> question \<Rightarrow> session \<Rightarrow> session" where
  "record_answer qid response q s =
     (let cur = current_dimension s;
          answered =
            \<lparr> aq_question_id = qid, aq_response = response, aq_difficulty = difficulty q,
              aq_discrimination = discrimination q, aq_reverse_scored = reverse_scored q \<rparr>;
          s1 = s\<lparr>questions_answered := (questions_answered s)(cur := questions_answered s cur @ [answered])\<rparr>
      in s1\<lparr>dimension_question_count :=
                (dimension_question_count s1)(cur := length (questions_answered s1 cur))\<rparr>)"

text \<open>The block of \<open>submit_answer\<close> "Check if test is complete".\<close>
definition check_completion :: "session \<Rightarrow> session" where
  "check_completion s =
     (let total_answered = total_questions_answered s in
      if total_answered \<ge> max_questions (irt_params adaptive_engine)
           \<or> all_dimensions_complete s PERSONALITY_DIMENSIONS
      then s\<lparr>status := Completed\<rparr> else s)"

text \<open>The fields of the response of \<open>submit_answer\<close> that are not rounded.\<close>
record submit_response =
  r_status :: session_status
  r_total_answered :: nat

text \<open>\<open>submit_answer\<close> for a session that exists: the session as the call leaves it, and
  the exception raised or the response. An exception of the estimator would leave the
  recorded answer in the session.\<close>
definition submit_answer ::
  "string \<Rightarrow> int \<Rightarrow> session \<Rightarrow> session \<times> (http_exception + submit_response)" where
  "submit_answer qid response s =
     (let cur = current_dimension s in
      case find_question qid (generated_questions s cur) of
        None \<Rightarrow> (s, Inl (HTTPException 404 ''Question not found''))
      | Some q \<Rightarrow>
          (let s2 = record_answer qid response q s in
           case extract_response_data (questions_answered s2 cur) ([], [], []) of
             (responses, difficulties, discriminations) \<Rightarrow>
               (case estimate_theta adaptive_engine responses difficulties discriminations of
                  Inl e \<Rightarrow> (s2, Inl (HTTPException 500 ''Error submitting answer''))
                | Inr (new_theta, new_se) \<Rightarrow>
                    (let s3 = s2\<lparr>theta := (theta s2)(cur := new_theta),
                                 se := (se s2)(cur := new_se),
                                 total_questions_answered := total_questions_answered s2 + 1\<rparr>;
                         s4 = check_completion s3
                     in (s4, Inr \<lparr> r_status = status s4,
                                   r_total_answered = total_questions_answered s3 \<rparr>)))))"

text \<open>A request to the engine, and the session after a sequence of requests.\<close>
datatype request = GetQuestion nat | SubmitAnswer string int

fun handle :: "session \<Rightarrow> request \<Rightarrow> session" where
  "handle s (GetQuestion r) = fst (get_current_question r s)"
| "handle s (SubmitAnswer qid response) = fst (submit_answer qid response s)"

definition run :: "request list \<Rightarrow> session \<Rightarrow> session" where
  "run reqs s = foldl handle s reqs"

section \<open>The specification's wording, for comparison with the code\<close>

text \<open>The binary endorsement outcome as the specification words it: the raw response is
  replaced by \<open>6 - raw\<close> when the item is reverse-scored, and the result maps to 1 when it
  is at least 4 and to 0 otherwise.\<close>
definition endorsement :: "bool \<Rightarrow> int \<Rightarrow> int" where
  "endorsement reversed raw = (let v = (if reversed then 6 - raw else raw) in if v \<ge> 4 then 1 else 0)"

text \<open>The per-dimension stop predicate as the specification words it.\<close>
definition dimension_stop :: "session \<Rightarrow> dimension \<Rightarrow> bool" where
  "dimension_stop s d =
     (length (questions_answered s d) \<ge> min_per_dimension (irt_params adaptive_engine)
      \<and> (se s d \<le> target_se (irt_params adaptive_engine)
         \<or> length (questions_answered s d) \<ge> max_per_dimension (irt_params adaptive_engine)))"

text \<open>The total answered across all dimensions.\<close>
definition total_answered_all :: "session \<Rightarrow> nat" where
  "total_answered_all s = sum_list (map (\<lambda>d. length (questions_answered s d)) PERSONALITY_DIMENSIONS)"

text \<open>The global completion predicate as the specification words it.\<close>
definition global_completion :: "session \<Rightarrow> bool" where
  "global_completion s =
     (total_answered_all s \<ge> max_questions (irt_params adaptive_engine)
      \<or> list_all (dimension_stop s) PERSONALITY_DIMENSIONS)"

text \<open>A client that answers the item it is given: one call of \<open>get_current_question\<close>
  and, when an item comes back, one call of \<open>submit_answer\<close> with the identifier of
  that item.\<close>
fun administer :: "session \<Rightarrow> nat \<times> int \<Rightarrow> session" where
  "administer s (r, response) =
     (case get_current_question r s of
        (s', Inl e) \<Rightarrow> s'
      | (s', Inr q) \<Rightarrow> fst (submit_answer (question_id q) response s'))"

definition administer_all :: "(nat \<times> int) list \<Rightarrow> session \<Rightarrow> session" where
  "administer_all steps s = foldl administer s steps"

section \<open>A sample session\<close>

text \<open>Ten items per dimension with the parameters of the first ten entries of the
  extraversion bank, and identifiers made of a prefix and a number as
  \<open>_get_optimized_question_bank\<close> makes them.\<close>
definition bank_items :: "(string \<times> real \<times> real \<times> bool) list" where
  "bank_items =
     [(''1'', - 1.2, 1.5, False), (''2'', - 0.8, 1.7, False), (''3'', - 0.4, 1.3, False),
      (''4'', 0.5, 1.8, False), (''5'', 0.2, 1.6, False), (''6'', - 0.6, 1.4, False),
      (''7'', - 0.3, 1.5, False), (''8'', 0.8, 1.7, True), (''9'', 1.0, 1.3, True),
      (''10'', 0.7, 1.6, False)]"

definition sample_pool :: "string \<Rightarrow> question list" where
  "sample_pool prefix =
     map (\<lambda>(n, b, a, rv). \<lparr> question_id = prefix @ n, q_text = [], difficulty = b,
                            discrimination = a, reverse_scored = rv \<rparr>) bank_items"

definition sample_pools :: "dimension \<Rightarrow> question list" where
  "sample_pools d =
     sample_pool (case d of Extraversion \<Rightarrow> ''e'' | Agreeableness \<Rightarrow> ''a''
                  | Conscientiousness \<Rightarrow> ''c'' | Neuroticism \<Rightarrow> ''n'' | Openness \<Rightarrow> ''o'')"

definition new_session :: session where
  "new_session = create_session ''Amira'' sample_pools"

text \<open>A client that answers every item of the current pool with 3, dimension after
  dimension; each \<open>GetQuestion\<close> moves the session to the next dimension.\<close>
definition answer_all :: "dimension \<Rightarrow> request list" where
  "answer_all d = map (\<lambda>qid. SubmitAnswer qid 3) (map question_id (sample_pools d))"

definition full_assessment :: "request list" where
  "full_assessment =
     answer_all Openness @ [GetQuestion 0] @ answer_all Conscientiousness @ [GetQuestion 0]
     @ answer_all Extraversion @ [GetQuestion 0] @ answer_all Agreeableness @ [GetQuestion 0]
     @ answer_all Neuroticism"

definition completed_session :: session where
  "completed_session = run full_assessment new_session"

text \<open>The sample session after one answer.\<close>
definition answered_once :: session where
  "answered_once = run [SubmitAnswer ''o1'' 5] new_session"

section \<open>An invariant of the sessions\<close>

text \<open>What holds of a session after any sequence of requests: the counts are the numbers
  of recorded answers, the total is their sum, every ability estimate is within the
  bounds, and a session for which the completion predicate holds is completed.\<close>
definition engine_invariant :: "session \<Rightarrow> bool" where
  "engine_invariant s =
     ((\<forall>d. dimension_question_count s d = length (questions_answered s d))
      \<and> total_questions_answered s = total_answered_all s
      \<and> (\<forall>d. min_theta (irt_params adaptive_engine) \<le> theta s d
              \<and> theta s d \<le> max_theta (irt_params adaptive_engine))
      \<and> (global_completion s \<longrightarrow> status s = Completed))"

section \<open>The IRT model\<close>

lemma py_div_logistic: "py_div 1 (1 + exp (- z)) = Inr (1 / (1 + exp (- z)))"
proof -
  have "0 < 1 + exp (- z)" by (simp add: add_pos_pos)
  then show ?thesis by (simp add: py_div_def)
qed

lemma logistic_product: "(1 / (1 + exp (- z))) * (1 - 1 / (1 + exp (- z))) = 1 / (2 + 2 * cosh (z::real))"
proof -
  define w where "w = exp z"
  have w: "0 < w" by (simp add: w_def)
  have m: "exp (- z) = 1 / w" by (simp add: w_def exp_minus inverse_eq_divide)
  have c: "2 * cosh z = w + 1 / w" by (simp add: cosh_field_def m w_def)
  have l: "(1 / (1 + 1 / w)) * (1 - 1 / (1 + 1 / w)) = w / ((w + 1) * (w + 1))"
    using w by (simp add: field_simps)
  have r: "1 / (2 + (w + 1 / w)) = w / ((w + 1) * (w + 1))"
    using w by (simp add: field_simps)
  show ?thesis unfolding m c using l r by simp
qed

lemma information_closed_form:
  "calculate_item_information th b a = a\<^sup>2 / (2 + 2 * cosh (a * (th - b)))"
proof -
  have "calculate_item_information th b a
        = a\<^sup>2 * ((1 / (1 + exp (- (a * (th - b))))) * (1 - 1 / (1 + exp (- (a * (th - b))))))"
    by (simp add: calculate_item_information_def Let_def py_div_logistic mult.assoc)
  also have "\<dots> = a\<^sup>2 * (1 / (2 + 2 * cosh (a * (th - b))))"
    by (simp only: logistic_product)
  finally show ?thesis by simp
qed




text \<open>In exact arithmetic the value is positive for every discrimination other than 0.\<close>
lemma information_positive_exact: "a \<noteq> 0 \<Longrightarrow> 0 < calculate_item_information th b a"
  unfolding information_closed_form by (simp add: add_pos_pos)

lemma DBL_MAX_bounds: "2 ^ 1023 \<le> DBL_MAX" "DBL_MAX < 2 ^ 1024"
  by (simp_all add: DBL_MAX_def)

lemma f64_of_small: "\<bar>x\<bar> \<le> 2 ^ 1023 \<Longrightarrow> f64_of x = Finite x"
  using DBL_MAX_bounds(1) by (auto simp add: f64_of_def)

lemma exp_1000_overflows: "DBL_MAX < exp (1000::real)"
proof -
  have "(5 / 2 :: real) \<le> exp 1"
    using exp_lower_Taylor_quadratic [of "1::real"] by simp
  then have "(5 / 2 :: real) ^ 1000 \<le> exp 1 ^ 1000"
    by (intro power_mono) simp_all
  also have "\<dots> = exp (1000::real)"
    using exp_of_nat_mult [of 1000 "1::real"] by simp
  finally have "(5 / 2 :: real) ^ 1000 \<le> exp 1000" .
  moreover have "(2::real) ^ 1024 \<le> (5 / 2) ^ 1000"
  proof -
    have "(2::real) ^ 1024 \<le> 32 ^ 250"
    proof -
      have "(32::real) ^ 250 = (2 ^ 5) ^ 250" by simp
      also have "\<dots> = 2 ^ 1250" by (simp only: power_mult [symmetric]) simp
      finally show ?thesis by (simp add: power_increasing)
    qed
    also have "\<dots> \<le> ((5 / 2) ^ 4) ^ 250"
      by (intro power_mono) (simp_all add: power4_eq_xxxx)
    also have "\<dots> = (5 / 2 :: real) ^ 1000" by (simp only: power_mult [symmetric]) simp
    finally show ?thesis .
  qed
  ultimately show ?thesis using DBL_MAX_bounds(2) by linarith
qed

lemma exp_600_in_range: "exp (600::real) + 1 \<le> 2 ^ 1023"
proof -
  have "exp (600::real) = exp 1 ^ 600"
    using exp_of_nat_mult [of 600 "1::real"] by simp
  also have "\<dots> \<le> 3 ^ 600"
    using exp_le by (intro power_mono) simp_all
  also have "\<dots> = ((3::real) ^ 5) ^ 120" by (simp only: power_mult [symmetric]) simp
  also have "\<dots> \<le> (2 ^ 8) ^ 120" by (intro power_mono) simp_all
  also have "\<dots> = (2::real) ^ 960" by (simp only: power_mult [symmetric]) simp
  finally have "exp (600::real) \<le> 2 ^ 960" .
  moreover have "(2::real) ^ 960 + 1 \<le> 2 ^ 961"
  proof -
    have "(1::real) \<le> 2 ^ 960" by (rule one_le_power) simp
    then show ?thesis by simp
  qed
  moreover have "(2::real) ^ 961 \<le> 2 ^ 1023" by (simp add: power_increasing)
  ultimately show ?thesis by linarith
qed

text \<open>Where nothing overflows, the double-precision reading returns the value of the
  exact one.\<close>
lemma calculate_item_information_f64_exact:
  assumes d: "\<bar>th - b\<bar> \<le> 2 ^ 1023" and z: "\<bar>a * (th - b)\<bar> \<le> 600" and a: "a\<^sup>2 \<le> 2 ^ 1023"
  shows "calculate_item_information_f64 (Finite th) (Finite b) (Finite a)
           = Finite (calculate_item_information th b a)"
proof -
  define zz where "zz = a * (th - b)"
  define e where "e = exp (- zz)"
  define p where "p = 1 / (1 + e)"
  have big: "(600::real) \<le> 2 ^ 1023"
    using exp_600_in_range exp_ge_add_one_self [of "600::real"] by linarith
  have e_pos: "0 < e" by (simp add: e_def)
  have "- zz \<le> 600" using z by (simp add: zz_def abs_le_iff)
  then have "e \<le> exp 600" by (simp add: e_def)
  then have e_le: "e + 1 \<le> 2 ^ 1023" using exp_600_in_range by linarith
  have p_pos: "0 < p" and p_le: "p \<le> 1"
    using e_pos by (simp_all add: p_def add_pos_pos)
  have f1: "f64_sub (Finite th) (Finite b) = Finite (th - b)"
    using d by (simp add: f64_sub_def f64_of_small)
  have f2: "f64_mul (Finite a) (Finite (th - b)) = Finite zz"
    using z big by (simp add: zz_def f64_of_small)
  have f3: "np_exp (f64_neg (Finite zz)) = Finite e"
    using e_pos e_le by (simp add: e_def [symmetric] f64_of_small)
  have f4: "f64_add (Finite 1) (Finite e) = Finite (1 + e)"
    using e_pos e_le by (simp add: f64_of_small add.commute)
  have f5: "f64_div (Finite 1) (Finite (1 + e)) = Finite p"
  proof -
    have "1 + e \<noteq> 0" using e_pos by simp
    moreover have "\<bar>p\<bar> \<le> 2 ^ 1023" using p_pos p_le big by simp
    ultimately show ?thesis by (simp add: p_def [symmetric] f64_of_small)
  qed
  have f6: "f64_sub (Finite 1) (Finite p) = Finite (1 - p)"
  proof -
    have "\<bar>1 - p\<bar> \<le> 2 ^ 1023" using p_pos p_le big by simp
    then show ?thesis by (simp add: f64_sub_def f64_of_small)
  qed
  have f7: "py_square (Finite a) = Inr (Finite (a\<^sup>2))"
    using a DBL_MAX_bounds(1) by simp
  have f8: "f64_mul (Finite (a\<^sup>2)) (Finite p) = Finite (a\<^sup>2 * p)"
  proof -
    have "0 \<le> a\<^sup>2 * p" using p_pos by simp
    moreover have "a\<^sup>2 * p \<le> a\<^sup>2 * 1"
      using p_le by (intro mult_left_mono) simp_all
    ultimately have "\<bar>a\<^sup>2 * p\<bar> \<le> 2 ^ 1023" using a by simp
    then show ?thesis by (simp add: f64_of_small)
  qed
  have f9: "f64_mul (Finite (a\<^sup>2 * p)) (Finite (1 - p)) = Finite (a\<^sup>2 * p * (1 - p))"
  proof -
    have n: "0 \<le> a\<^sup>2 * p" using p_pos by simp
    have "0 \<le> a\<^sup>2 * p * (1 - p)" using n p_le by simp
    moreover have "a\<^sup>2 * p * (1 - p) \<le> a\<^sup>2 * p * 1"
      using n p_pos by (intro mult_left_mono) simp_all
    moreover have "a\<^sup>2 * p \<le> a\<^sup>2 * 1"
      using p_le by (intro mult_left_mono) simp_all
    ultimately have "\<bar>a\<^sup>2 * p * (1 - p)\<bar> \<le> 2 ^ 1023" using a by simp
    then show ?thesis by (simp add: f64_of_small)
  qed
  have lhs: "calculate_item_information_f64 (Finite th) (Finite b) (Finite a)
               = Finite (a\<^sup>2 * p * (1 - p))"
    unfolding calculate_item_information_f64_def Let_def f1 f2 f3 f4 f5 f6 f7
    by (simp only: sum.case f8 f9)
  have rhs: "calculate_item_information th b a = a\<^sup>2 * p * (1 - p)"
    by (simp add: calculate_item_information_def Let_def py_div_logistic p_def e_def zz_def)
  show ?thesis unfolding lhs rhs ..
qed

text \<open>C10 fails on \<open>calculate_item_information\<close>: for an ability of -1000, a difficulty
  of 0 and a discrimination of 1 the exponential overflows to an infinity, which is no
  exception, so the \<open>except\<close> does not run and the value returned is 0, where the claim
  says that the fallback 0.1 is substituted and that the value is never zero. The
  \<open>except\<close> does run for the \<open>OverflowError\<close> of \<open>discrimination**2\<close>: for a
  discrimination of 1e200 the value returned is 0.1.\<close>
theorem exp_overflow_not_caught:
  "calculate_item_information_f64 (Finite (- 1000)) (Finite 0) (Finite 1) = Finite 0
   \<and> calculate_item_information_f64 (Finite 0) (Finite 0) (Finite (10 ^ 200)) = Finite 0.1"
proof -
  have s: "f64_of (- 1000) = Finite (- 1000)" "f64_of 1 = Finite 1" "f64_of 0 = Finite 0"
    by (simp_all add: f64_of_small)
  have e: "f64_of (exp 1000) = PosInf"
    using exp_1000_overflows by (simp add: f64_of_def)
  have one: "\<not> (1::real) > DBL_MAX" using DBL_MAX_bounds(1) by simp
  have a: "calculate_item_information_f64 (Finite (- 1000)) (Finite 0) (Finite 1) = Finite 0"
    by (simp add: calculate_item_information_f64_def f64_sub_def s e one Let_def)
  have big: "DBL_MAX < ((10::real) ^ 200)\<^sup>2"
  proof -
    have "(2::real) ^ 1024 \<le> 8 ^ 400"
    proof -
      have "(8::real) ^ 400 = (2 ^ 3) ^ 400" by simp
      also have "\<dots> = 2 ^ 1200" by (simp only: power_mult [symmetric]) simp
      finally show ?thesis by (simp add: power_increasing)
    qed
    also have "\<dots> \<le> (10::real) ^ 400" by (intro power_mono) simp_all
    also have "\<dots> = ((10::real) ^ 200)\<^sup>2" by (simp only: power_mult [symmetric]) simp
    finally show ?thesis using DBL_MAX_bounds(2) by linarith
  qed
  have b: "calculate_item_information_f64 (Finite 0) (Finite 0) (Finite (10 ^ 200)) = Finite 0.1"
    using big by (simp add: calculate_item_information_f64_def Let_def)
  from a b show ?thesis by blast
qed

section \<open>The ability estimator\<close>

text \<open>C4: for the empty response sequence \<open>estimate_theta\<close> returns the pair (0.0, 1.0),
  whatever the other two sequences are, and runs no Newton-Raphson iteration.\<close>
theorem estimate_theta_empty:
  "estimate_theta self [] ds as = Inr (0, 1) \<and> estimate_theta_iterations self [] ds as = Inr 0"
  by (simp add: estimate_theta_def estimate_theta_iterations_def estimate_theta_traced_def)

lemma score_and_information_total:
  "length rs \<le> length ds \<Longrightarrow> length rs \<le> length as
     \<Longrightarrow> \<exists>v. score_and_information th rs ds as acc = Inr v"
  by (induction th rs ds as acc rule: score_and_information.induct) (simp_all add: Let_def)

lemma newton_raphson_total:
  assumes "length rs \<le> length ds" "length rs \<le> length as"
  shows "\<exists>v. newton_raphson P n rs ds as st = Inr v"
proof (induction n arbitrary: st)
  case 0
  show ?case by (rule exI [of _ st]) simp
next
  case (Suc n)
  obtain th i k where st: "st = (th, i, k)" by (rule prod_cases3)
  obtain ld info where sc: "score_and_information th rs ds as (0, 0) = Inr (ld, info)"
    using score_and_information_total [OF assms, of th "(0, 0)"] by (metis surj_pair)
  show ?case
    using Suc.IH by (simp add: st sc Let_def)
qed

lemma newton_raphson_range:
  assumes "min_theta P \<le> max_theta P"
  shows "min_theta P \<le> th \<Longrightarrow> th \<le> max_theta P
     \<Longrightarrow> newton_raphson P n rs ds as (th, i, k) = Inr (th', i', k')
     \<Longrightarrow> min_theta P \<le> th' \<and> th' \<le> max_theta P"
proof (induction n arbitrary: th i k)
  case 0
  then show ?case by simp
next
  case (Suc n)
  show ?case
  proof (cases "score_and_information th rs ds as (0, 0)")
    case (Inl e)
    with Suc.prems show ?thesis by simp
  next
    case (Inr v)
    obtain ld info where v: "v = (ld, info)" by (cases v) auto
    let ?new = "th + ld / info"
    let ?cl = "max (min_theta P) (min (max_theta P) ?new)"
    have cl: "min_theta P \<le> ?cl \<and> ?cl \<le> max_theta P" using assms by auto
    have eq: "(if info > 0 then
                 (if \<bar>?new - th\<bar> < 0.001 then Inr (th, info, Suc k)
                  else newton_raphson P n rs ds as (?cl, info, Suc k))
               else Inr (th, info, Suc k)) = Inr (th', i', k')"
      using Suc.prems(3)
      by (simp only: newton_raphson.simps Inr v sum.case prod.case Let_def)
    consider (stop) "\<not> info > 0" | (conv) "info > 0" "\<bar>?new - th\<bar> < 0.001"
      | (go) "info > 0" "\<not> \<bar>?new - th\<bar> < 0.001" by blast
    then show ?thesis
    proof cases
      case stop
      with eq have "th' = th" by (simp only: if_False) simp
      with Suc.prems show ?thesis by simp
    next
      case conv
      with eq have "th' = th" by (simp only: if_True) simp
      with Suc.prems show ?thesis by simp
    next
      case go
      with eq have "newton_raphson P n rs ds as (?cl, info, Suc k) = Inr (th', i', k')"
        by (simp only: if_True if_False)
      from Suc.IH [OF _ _ this] cl show ?thesis by blast
    qed
  qed
qed

lemma estimate_theta_range:
  assumes "estimate_theta adaptive_engine rs ds as = Inr (t, e)"
  shows "min_theta (irt_params adaptive_engine) \<le> t \<and> t \<le> max_theta (irt_params adaptive_engine)"
proof (cases "rs = []")
  case True
  with assms have "t = 0"
    by (simp add: estimate_theta_def estimate_theta_traced_def)
  then show ?thesis by (simp add: adaptive_engine_def IRTParameters_init_def)
next
  case False
  let ?P = "irt_params adaptive_engine"
  from assms False obtain i k where
    nr: "newton_raphson ?P 50 rs ds as (0, 0, 0) = Inr (t, i, k)"
    by (auto simp add: estimate_theta_def estimate_theta_traced_def
             split: sum.splits prod.splits)
  have "min_theta ?P \<le> max_theta ?P" "min_theta ?P \<le> 0" "0 \<le> max_theta ?P"
    by (simp_all add: adaptive_engine_def IRTParameters_init_def)
  from newton_raphson_range [OF this nr] show ?thesis .
qed

lemma estimate_theta_total:
  assumes "length rs \<le> length ds" "length rs \<le> length as"
  shows "\<exists>t e. estimate_theta self rs ds as = Inr (t, e)"
proof -
  obtain v where "newton_raphson (irt_params self) 50 rs ds as (0, 0, 0) = Inr v"
    using newton_raphson_total [OF assms] by blast
  then show ?thesis
    by (cases v) (simp add: estimate_theta_def estimate_theta_traced_def)
qed

section \<open>Scoring of the raw responses\<close>

lemma extract_response_data_acc:
  "extract_response_data aqs (rs, ds, as) =
     (rs @ map (\<lambda>aq. endorsement (aq_reverse_scored aq) (aq_response aq)) aqs,
      ds @ map aq_difficulty aqs,
      as @ map aq_discrimination aqs)"
  by (induction aqs arbitrary: rs ds as) (simp_all add: endorsement_def Let_def)

section \<open>The stopping controller\<close>

text \<open>\<open>should_stop_testing\<close> never reads \<open>min_per_dimension\<close> to any effect: its
  last test returns what the fall-through returns.\<close>
lemma should_stop_testing_iff:
  "should_stop_testing self se_value num_questions dimension_questions =
     (se_value \<le> target_se (irt_params self)
      \<or> length dimension_questions \<ge> max_per_dimension (irt_params self)
      \<or> num_questions \<ge> max_questions (irt_params self))"
  by (simp add: should_stop_testing_def)

text \<open>C1 fails on \<open>should_stop_testing\<close>, which tests the standard error before the minimum
  number of questions: for a dimension without any answer (fewer than
  \<open>min_per_dimension\<close>) and a standard error of 0.2 it answers "stop", where the claim
  says "continue".\<close>
theorem should_stop_testing_before_minimum:
  "should_stop_testing adaptive_engine 0.2 0 [] = True
   \<and> length ([] :: answered_question list) < min_per_dimension (irt_params adaptive_engine)"
  by (simp add: should_stop_testing_def adaptive_engine_def IRTParameters_init_def)

text \<open>The test of \<open>submit_answer\<close> does what \<open>should_stop_testing\<close> misses.\<close>
lemma dimension_needs_more_iff:
  "(\<not> dimension_needs_more s d) =
     ((se s d \<le> target_se (irt_params adaptive_engine)
        \<and> length (questions_answered s d) \<ge> min_per_dimension (irt_params adaptive_engine))
      \<or> length (questions_answered s d) \<ge> max_per_dimension (irt_params adaptive_engine))"
  by (auto simp add: dimension_needs_more_def Let_def adaptive_engine_def IRTParameters_init_def)

lemma dimension_needs_more_below_minimum:
  "length (questions_answered s d) < min_per_dimension (irt_params adaptive_engine)
     \<Longrightarrow> dimension_needs_more s d"
  by (simp add: dimension_needs_more_def Let_def)

section \<open>The session state machine\<close>

lemma record_answer_fields:
  "current_dimension (record_answer qid r q s) = current_dimension s"
  "generated_questions (record_answer qid r q s) = generated_questions s"
  "name (record_answer qid r q s) = name s"
  "status (record_answer qid r q s) = status s"
  "theta (record_answer qid r q s) = theta s"
  "se (record_answer qid r q s) = se s"
  "total_questions_answered (record_answer qid r q s) = total_questions_answered s"
  by (simp_all add: record_answer_def Let_def)

lemma record_answer_answers:
  "questions_answered (record_answer qid r q s) =
     (questions_answered s)(current_dimension s := questions_answered s (current_dimension s) @
        [\<lparr> aq_question_id = qid, aq_response = r, aq_difficulty = difficulty q,
           aq_discrimination = discrimination q, aq_reverse_scored = reverse_scored q \<rparr>])"
  by (simp add: record_answer_def Let_def)

lemma record_answer_count:
  "dimension_question_count (record_answer qid r q s) =
     (dimension_question_count s)(current_dimension s :=
        Suc (length (questions_answered s (current_dimension s))))"
  by (simp add: record_answer_def Let_def)

lemma check_completion_fields:
  "current_dimension (check_completion s) = current_dimension s"
  "generated_questions (check_completion s) = generated_questions s"
  "name (check_completion s) = name s"
  "theta (check_completion s) = theta s"
  "se (check_completion s) = se s"
  "questions_answered (check_completion s) = questions_answered s"
  "dimension_question_count (check_completion s) = dimension_question_count s"
  "total_questions_answered (check_completion s) = total_questions_answered s"
  by (simp_all add: check_completion_def Let_def)

lemma all_dimensions_complete_list_all:
  "all_dimensions_complete s dims = list_all (dimension_stop s) dims"
  by (induction dims)
     (auto simp add: dimension_needs_more_def dimension_stop_def Let_def)

lemma check_completion_status:
  "(status (check_completion s) = Completed) =
     (status s = Completed
      \<or> total_questions_answered s \<ge> max_questions (irt_params adaptive_engine)
      \<or> list_all (dimension_stop s) PERSONALITY_DIMENSIONS)"
  by (auto simp add: check_completion_def Let_def all_dimensions_complete_list_all)

lemma submit_answer_not_found:
  "find_question qid (generated_questions s (current_dimension s)) = None
     \<Longrightarrow> submit_answer qid r s = (s, Inl (HTTPException 404 ''Question not found''))"
  by (simp add: submit_answer_def Let_def)

lemma submit_answer_found:
  assumes "find_question qid (generated_questions s (current_dimension s)) = Some q"
  shows "\<exists>t e. min_theta (irt_params adaptive_engine) \<le> t \<and> t \<le> max_theta (irt_params adaptive_engine)
           \<and> fst (submit_answer qid r s) =
               check_completion
                 ((record_answer qid r q s)
                    \<lparr>theta := (theta s)(current_dimension s := t),
                     se := (se s)(current_dimension s := e),
                     total_questions_answered := Suc (total_questions_answered s)\<rparr>)
           \<and> (\<exists>resp. snd (submit_answer qid r s) = Inr resp)"
proof -
  let ?s2 = "record_answer qid r q s"
  let ?xs = "questions_answered ?s2 (current_dimension s)"
  obtain rs ds as where ex: "extract_response_data ?xs ([], [], []) = (rs, ds, as)"
    by (rule prod_cases3)
  have "length rs = length ?xs" "length ds = length ?xs" "length as = length ?xs"
    using ex by (auto simp add: extract_response_data_acc)
  then obtain t e where est: "estimate_theta adaptive_engine rs ds as = Inr (t, e)"
    using estimate_theta_total [of rs ds as adaptive_engine] by auto
  have "min_theta (irt_params adaptive_engine) \<le> t \<and> t \<le> max_theta (irt_params adaptive_engine)"
    using estimate_theta_range [OF est] .
  moreover have "fst (submit_answer qid r s) =
               check_completion
                 (?s2\<lparr>theta := (theta s)(current_dimension s := t),
                     se := (se s)(current_dimension s := e),
                     total_questions_answered := Suc (total_questions_answered s)\<rparr>)"
    using assms ex est by (simp add: submit_answer_def Let_def record_answer_fields)
  moreover have "\<exists>resp. snd (submit_answer qid r s) = Inr resp"
    using assms ex est by (simp add: submit_answer_def Let_def)
  ultimately show ?thesis by blast
qed

lemma get_current_question_fields:
  "questions_answered (fst (get_current_question r s)) = questions_answered s"
  "theta (fst (get_current_question r s)) = theta s"
  "se (fst (get_current_question r s)) = se s"
  "dimension_question_count (fst (get_current_question r s)) = dimension_question_count s"
  "total_questions_answered (fst (get_current_question r s)) = total_questions_answered s"
  "generated_questions (fst (get_current_question r s)) = generated_questions s"
  "name (fst (get_current_question r s)) = name s"
  by (simp_all add: get_current_question_def Let_def split: option.splits sum.splits)

lemma get_current_question_status:
  "status (fst (get_current_question r s)) = Completed \<or>
   status (fst (get_current_question r s)) = status s"
  by (simp add: get_current_question_def Let_def split: option.splits sum.splits)

lemma get_current_question_completed:
  "status s = Completed \<Longrightarrow> status (fst (get_current_question r s)) = Completed"
  using get_current_question_status [of r s] by auto

lemma global_completion_cong:
  assumes "questions_answered s' = questions_answered s" "se s' = se s"
  shows "global_completion s' = global_completion s"
proof -
  have "dimension_stop s' = dimension_stop s"
    using assms by (intro ext) (simp add: dimension_stop_def)
  then show ?thesis
    using assms by (simp add: global_completion_def total_answered_all_def)
qed

lemma total_answered_all_append:
  "sum_list (map (\<lambda>d. length ((f(c := f c @ [x])) d)) PERSONALITY_DIMENSIONS)
     = Suc (sum_list (map (\<lambda>d. length (f d)) PERSONALITY_DIMENSIONS))"
  by (cases c) (simp_all add: PERSONALITY_DIMENSIONS_def)

lemma engine_invariant_create: "engine_invariant (create_session nm pools)"
  by (simp add: engine_invariant_def create_session_def total_answered_all_def
        global_completion_def dimension_stop_def PERSONALITY_DIMENSIONS_def
        adaptive_engine_def IRTParameters_init_def)

lemma engine_invariant_get:
  assumes "engine_invariant s"
  shows "engine_invariant (fst (get_current_question r s))"
proof -
  let ?s' = "fst (get_current_question r s)"
  have g: "global_completion ?s' = global_completion s"
    by (rule global_completion_cong) (simp_all add: get_current_question_fields)
  have t: "total_answered_all ?s' = total_answered_all s"
    by (simp add: total_answered_all_def get_current_question_fields)
  show ?thesis
    using assms get_current_question_status [of r s]
    by (auto simp add: engine_invariant_def g t get_current_question_fields)
qed

lemma engine_invariant_submit:
  assumes "engine_invariant s"
  shows "engine_invariant (fst (submit_answer qid r s))"
proof (cases "find_question qid (generated_questions s (current_dimension s))")
  case None
  then show ?thesis using assms by (simp add: submit_answer_not_found)
next
  case (Some q)
  let ?c = "current_dimension s"
  from submit_answer_found [OF Some, of r] obtain t e where
    t: "min_theta (irt_params adaptive_engine) \<le> t" "t \<le> max_theta (irt_params adaptive_engine)"
    and eq: "fst (submit_answer qid r s) =
               check_completion
                 ((record_answer qid r q s)
                    \<lparr>theta := (theta s)(?c := t), se := (se s)(?c := e),
                     total_questions_answered := Suc (total_questions_answered s)\<rparr>)"
    by blast
  let ?x = "(record_answer qid r q s)
                    \<lparr>theta := (theta s)(?c := t), se := (se s)(?c := e),
                     total_questions_answered := Suc (total_questions_answered s)\<rparr>"
  have tot: "total_answered_all ?x = Suc (total_answered_all s)"
    by (simp add: total_answered_all_def record_answer_answers total_answered_all_append
          del: fun_upd_apply)
  have gx: "global_completion (check_completion ?x) = global_completion ?x"
    by (rule global_completion_cong) (simp_all add: check_completion_fields)
  have totc: "total_answered_all (check_completion ?x) = total_answered_all ?x"
    by (simp add: total_answered_all_def check_completion_fields)
  have i1: "\<forall>d. dimension_question_count (check_completion ?x) d
               = length (questions_answered (check_completion ?x) d)"
    using assms
    by (simp add: engine_invariant_def check_completion_fields record_answer_count
          record_answer_answers)
  have totx: "total_questions_answered ?x = total_answered_all ?x"
  proof -
    have "total_questions_answered ?x = Suc (total_questions_answered s)" by simp
    also have "\<dots> = Suc (total_answered_all s)"
      using assms by (simp add: engine_invariant_def)
    finally show ?thesis using tot by simp
  qed
  have i2: "total_questions_answered (check_completion ?x) = total_answered_all (check_completion ?x)"
    using totx totc by (simp add: check_completion_fields)
  have i3: "\<forall>d. min_theta (irt_params adaptive_engine) \<le> theta (check_completion ?x) d
              \<and> theta (check_completion ?x) d \<le> max_theta (irt_params adaptive_engine)"
    using assms t by (simp add: engine_invariant_def check_completion_fields)
  have i4: "global_completion (check_completion ?x) \<longrightarrow> status (check_completion ?x) = Completed"
  proof
    assume "global_completion (check_completion ?x)"
    then have "global_completion ?x" using gx by simp
    then have "total_questions_answered ?x \<ge> max_questions (irt_params adaptive_engine)
               \<or> list_all (dimension_stop ?x) PERSONALITY_DIMENSIONS"
      unfolding global_completion_def totx .
    then show "status (check_completion ?x) = Completed"
      unfolding check_completion_status by blast
  qed
  show ?thesis unfolding eq using i1 i2 i3 i4 by (simp add: engine_invariant_def)
qed

lemma engine_invariant_handle: "engine_invariant s \<Longrightarrow> engine_invariant (handle s req)"
  by (cases req) (simp_all add: engine_invariant_get engine_invariant_submit)

lemma engine_invariant_run: "engine_invariant s \<Longrightarrow> engine_invariant (run reqs s)"
  unfolding run_def by (induction reqs arbitrary: s) (simp_all add: engine_invariant_handle)

lemma engine_invariant_reachable: "engine_invariant (run reqs (create_session nm pools))"
  by (rule engine_invariant_run) (rule engine_invariant_create)

lemma submit_answer_frame:
  "current_dimension (fst (submit_answer qid r s)) = current_dimension s"
  "generated_questions (fst (submit_answer qid r s)) = generated_questions s"
  "name (fst (submit_answer qid r s)) = name s"
  by (auto simp add: submit_answer_def Let_def record_answer_fields check_completion_fields
           split: option.splits sum.splits prod.splits)

lemma submit_answer_answers:
  "questions_answered (fst (submit_answer qid r s)) =
     (case find_question qid (generated_questions s (current_dimension s)) of
        None \<Rightarrow> questions_answered s
      | Some q \<Rightarrow>
          (questions_answered s)(current_dimension s := questions_answered s (current_dimension s) @
            [\<lparr> aq_question_id = qid, aq_response = r, aq_difficulty = difficulty q,
               aq_discrimination = discrimination q, aq_reverse_scored = reverse_scored q \<rparr>]))"
  by (auto simp add: submit_answer_def Let_def record_answer_answers check_completion_fields
           split: option.splits sum.splits prod.splits)

lemma submit_answer_completed:
  "status s = Completed \<Longrightarrow> status (fst (submit_answer qid r s)) = Completed"
  by (auto simp add: submit_answer_def Let_def record_answer_fields check_completion_def
           split: option.splits sum.splits prod.splits)

lemma handle_completed: "status s = Completed \<Longrightarrow> status (handle s req) = Completed"
  by (cases req) (simp_all add: submit_answer_completed get_current_question_completed)

lemma run_completed: "status s = Completed \<Longrightarrow> status (run reqs s) = Completed"
  unfolding run_def by (induction reqs arbitrary: s) (simp_all add: handle_completed)

lemma submit_answer_status:
  assumes "engine_invariant s"
  shows "(status (fst (submit_answer qid r s)) = Completed)
           = (status s = Completed \<or> global_completion (fst (submit_answer qid r s)))"
proof (cases "find_question qid (generated_questions s (current_dimension s))")
  case None
  then show ?thesis using assms by (auto simp add: submit_answer_not_found engine_invariant_def)
next
  case (Some q)
  have inv': "engine_invariant (fst (submit_answer qid r s))"
    using assms by (rule engine_invariant_submit)
  let ?c = "current_dimension s"
  from submit_answer_found [OF Some, of r] obtain t e where
    eq: "fst (submit_answer qid r s) =
               check_completion
                 ((record_answer qid r q s)
                    \<lparr>theta := (theta s)(?c := t), se := (se s)(?c := e),
                     total_questions_answered := Suc (total_questions_answered s)\<rparr>)"
    by blast
  let ?x = "(record_answer qid r q s)
                    \<lparr>theta := (theta s)(?c := t), se := (se s)(?c := e),
                     total_questions_answered := Suc (total_questions_answered s)\<rparr>"
  have gx: "global_completion (check_completion ?x) = global_completion ?x"
    by (rule global_completion_cong) (simp_all add: check_completion_fields)
  have totx: "total_questions_answered ?x = total_answered_all ?x"
  proof -
    have "total_questions_answered (check_completion ?x) = total_answered_all (check_completion ?x)"
      using inv' unfolding eq by (simp add: engine_invariant_def)
    then show ?thesis
      by (simp add: check_completion_fields total_answered_all_def)
  qed
  have sx: "status ?x = status s" by (simp add: record_answer_fields)
  have "(status (check_completion ?x) = Completed)
          = (status s = Completed \<or> global_completion ?x)"
    unfolding check_completion_status global_completion_def totx sx by blast
  then show ?thesis unfolding eq gx .
qed

lemma submit_answer_estimate:
  assumes "find_question qid (generated_questions s (current_dimension s)) = Some q"
  shows "\<exists>t e.
           estimate_theta adaptive_engine
             (map (\<lambda>aq. endorsement (aq_reverse_scored aq) (aq_response aq))
                (questions_answered (fst (submit_answer qid r s)) (current_dimension s)))
             (map aq_difficulty (questions_answered (fst (submit_answer qid r s)) (current_dimension s)))
             (map aq_discrimination (questions_answered (fst (submit_answer qid r s)) (current_dimension s)))
             = Inr (t, e)
         \<and> theta (fst (submit_answer qid r s)) (current_dimension s) = t
         \<and> se (fst (submit_answer qid r s)) (current_dimension s) = e"
proof -
  let ?s2 = "record_answer qid r q s"
  let ?xs = "questions_answered ?s2 (current_dimension s)"
  let ?rs = "map (\<lambda>aq. endorsement (aq_reverse_scored aq) (aq_response aq)) ?xs"
  let ?ds = "map aq_difficulty ?xs"
  let ?as = "map aq_discrimination ?xs"
  have ex: "extract_response_data ?xs ([], [], []) = (?rs, ?ds, ?as)"
    by (simp add: extract_response_data_acc)
  obtain t e where est: "estimate_theta adaptive_engine ?rs ?ds ?as = Inr (t, e)"
    using estimate_theta_total [of ?rs ?ds ?as adaptive_engine] by auto
  have eq: "fst (submit_answer qid r s) =
               check_completion
                 (?s2\<lparr>theta := (theta s)(current_dimension s := t),
                     se := (se s)(current_dimension s := e),
                     total_questions_answered := Suc (total_questions_answered s)\<rparr>)"
    using assms ex est by (simp add: submit_answer_def Let_def record_answer_fields)
  have xs: "questions_answered (fst (submit_answer qid r s)) (current_dimension s) = ?xs"
    unfolding eq by (simp add: check_completion_fields)
  have "theta (fst (submit_answer qid r s)) (current_dimension s) = t"
    "se (fst (submit_answer qid r s)) (current_dimension s) = e"
    unfolding eq by (simp_all add: check_completion_fields)
  then show ?thesis unfolding xs using est by blast
qed

text \<open>C5: the outcomes that \<open>submit_answer\<close> passes to the estimator are, item by item
  in the order of administration, the raw response reverse-mapped by \<open>6 - r\<close> exactly for
  the reverse-scored items and then mapped to 1 when at least 4 and to 0 otherwise; the
  difficulties and discriminations are those recorded with the answers, and the estimate
  and standard error stored for the dimension are what the estimator returns on them.\<close>
theorem binary_endorsement_outcomes:
  "extract_response_data aqs ([], [], []) =
     (map (\<lambda>aq. endorsement (aq_reverse_scored aq) (aq_response aq)) aqs,
      map aq_difficulty aqs,
      map aq_discrimination aqs)
   \<and> (\<forall>q. find_question qid (generated_questions s (current_dimension s)) = Some q \<longrightarrow>
        (\<exists>t e.
           estimate_theta adaptive_engine
             (map (\<lambda>aq. endorsement (aq_reverse_scored aq) (aq_response aq))
                (questions_answered (fst (submit_answer qid r s)) (current_dimension s)))
             (map aq_difficulty (questions_answered (fst (submit_answer qid r s)) (current_dimension s)))
             (map aq_discrimination (questions_answered (fst (submit_answer qid r s)) (current_dimension s)))
             = Inr (t, e)
         \<and> theta (fst (submit_answer qid r s)) (current_dimension s) = t
         \<and> se (fst (submit_answer qid r s)) (current_dimension s) = e))
   \<and> endorsement False 5 = 1 \<and> endorsement False 4 = 1 \<and> endorsement False 3 = 0
   \<and> endorsement True 1 = 1 \<and> endorsement True 2 = 1 \<and> endorsement True 3 = 0"
proof -
  have "extract_response_data aqs ([], [], []) =
     (map (\<lambda>aq. endorsement (aq_reverse_scored aq) (aq_response aq)) aqs,
      map aq_difficulty aqs,
      map aq_discrimination aqs)"
    by (simp add: extract_response_data_acc)
  moreover have "endorsement False 5 = 1 \<and> endorsement False 4 = 1 \<and> endorsement False 3 = 0
   \<and> endorsement True 1 = 1 \<and> endorsement True 2 = 1 \<and> endorsement True 3 = 0"
    by (simp add: endorsement_def)
  ultimately show ?thesis using submit_answer_estimate [of qid s _ r] by blast
qed

lemma first_answer_found:
  "find_question ''o8'' (generated_questions new_session (current_dimension new_session))
     = Some \<lparr> question_id = ''o8'', q_text = [], difficulty = 0.8, discrimination = 1.7,
              reverse_scored = True \<rparr>"
  by (simp add: new_session_def create_session_def sample_pools_def sample_pool_def bank_items_def)

lemma first_answer_recorded:
  "questions_answered (fst (submit_answer ''o8'' 2 new_session)) (current_dimension new_session)
     = [\<lparr> aq_question_id = ''o8'', aq_response = 2, aq_difficulty = 0.8,
          aq_discrimination = 1.7, aq_reverse_scored = True \<rparr>]"
  unfolding submit_answer_answers first_answer_found
  by (simp add: new_session_def create_session_def)

text \<open>An instance of C5: the reverse-scored item \<open>o8\<close> answered with 2 counts as
  endorsed.\<close>
theorem binary_endorsement_outcomes_witness:
  "find_question ''o8'' (generated_questions new_session (current_dimension new_session))
     = Some \<lparr> question_id = ''o8'', q_text = [], difficulty = 0.8, discrimination = 1.7,
              reverse_scored = True \<rparr>
   \<and> (\<exists>t e. estimate_theta adaptive_engine [1] [0.8] [1.7] = Inr (t, e)
         \<and> theta (fst (submit_answer ''o8'' 2 new_session)) (current_dimension new_session) = t
         \<and> se (fst (submit_answer ''o8'' 2 new_session)) (current_dimension new_session) = e)"
proof -
  have "\<exists>t e.
           estimate_theta adaptive_engine
             (map (\<lambda>aq. endorsement (aq_reverse_scored aq) (aq_response aq))
                (questions_answered (fst (submit_answer ''o8'' 2 new_session)) (current_dimension new_session)))
             (map aq_difficulty (questions_answered (fst (submit_answer ''o8'' 2 new_session)) (current_dimension new_session)))
             (map aq_discrimination (questions_answered (fst (submit_answer ''o8'' 2 new_session)) (current_dimension new_session)))
             = Inr (t, e)
         \<and> theta (fst (submit_answer ''o8'' 2 new_session)) (current_dimension new_session) = t
         \<and> se (fst (submit_answer ''o8'' 2 new_session)) (current_dimension new_session) = e"
    using binary_endorsement_outcomes [of "[]" "''o8''" new_session 2] first_answer_found by blast
  then have "\<exists>t e. estimate_theta adaptive_engine [1] [0.8] [1.7] = Inr (t, e)
         \<and> theta (fst (submit_answer ''o8'' 2 new_session)) (current_dimension new_session) = t
         \<and> se (fst (submit_answer ''o8'' 2 new_session)) (current_dimension new_session) = e"
    unfolding first_answer_recorded by (simp add: endorsement_def)
  then show ?thesis using first_answer_found by blast
qed

lemma dimensions_all: "list_all P PERSONALITY_DIMENSIONS = (\<forall>d. P d)"
proof
  assume a: "list_all P PERSONALITY_DIMENSIONS"
  show "\<forall>d. P d"
  proof
    fix d show "P d" using a by (cases d) (simp_all add: PERSONALITY_DIMENSIONS_def)
  qed
next
  assume "\<forall>d. P d"
  then show "list_all P PERSONALITY_DIMENSIONS" by (simp add: list_all_iff)
qed

text \<open>C2: after any sequence of requests to a new session, a call of \<open>submit_answer\<close>
  leaves the session completed exactly when it was completed before the call or the
  global completion predicate holds of the session as the call leaves it: the answers of
  all dimensions number at least \<open>max_questions\<close>, or every one of the five dimensions has
  at least \<open>min_per_dimension\<close> answers and either a standard error of at most
  \<open>target_se\<close> or at least \<open>max_per_dimension\<close> answers. For a session that was active,
  the call completes it exactly when the predicate holds.\<close>
theorem submit_answer_completes_session:
  "(status (fst (submit_answer qid r (run reqs (create_session nm pools)))) = Completed)
     = (status (run reqs (create_session nm pools)) = Completed
        \<or> global_completion (fst (submit_answer qid r (run reqs (create_session nm pools)))))
   \<and> global_completion s
       = (total_answered_all s \<ge> max_questions (irt_params adaptive_engine)
          \<or> (\<forall>d. dimension_stop s d))"
proof -
  have "engine_invariant (run reqs (create_session nm pools))"
    by (rule engine_invariant_reachable)
  then have "(status (fst (submit_answer qid r (run reqs (create_session nm pools)))) = Completed)
     = (status (run reqs (create_session nm pools)) = Completed
        \<or> global_completion (fst (submit_answer qid r (run reqs (create_session nm pools)))))"
    by (rule submit_answer_status)
  moreover have "global_completion s
       = (total_answered_all s \<ge> max_questions (irt_params adaptive_engine)
          \<or> (\<forall>d. dimension_stop s d))"
    by (simp add: global_completion_def dimensions_all)
  ultimately show ?thesis by blast
qed

text \<open>C8: every ability estimate that \<open>estimate_theta\<close> returns lies between
  \<open>min_theta\<close> and \<open>max_theta\<close>, and so does the estimate stored for every dimension of
  a session after any sequence of requests; the two bounds are -3 and 3.\<close>
theorem theta_within_bounds:
  "(\<forall>t e. estimate_theta adaptive_engine rs ds as = Inr (t, e)
        \<longrightarrow> min_theta (irt_params adaptive_engine) \<le> t \<and> t \<le> max_theta (irt_params adaptive_engine))
   \<and> min_theta (irt_params adaptive_engine) \<le> theta (run reqs (create_session nm pools)) d
   \<and> theta (run reqs (create_session nm pools)) d \<le> max_theta (irt_params adaptive_engine)
   \<and> min_theta (irt_params adaptive_engine) = - 3 \<and> max_theta (irt_params adaptive_engine) = 3"
proof -
  have "engine_invariant (run reqs (create_session nm pools))"
    by (rule engine_invariant_reachable)
  then have "min_theta (irt_params adaptive_engine) \<le> theta (run reqs (create_session nm pools)) d
   \<and> theta (run reqs (create_session nm pools)) d \<le> max_theta (irt_params adaptive_engine)"
    by (simp add: engine_invariant_def)
  moreover have "min_theta (irt_params adaptive_engine) = - 3 \<and> max_theta (irt_params adaptive_engine) = 3"
    by (simp add: adaptive_engine_def IRTParameters_init_def)
  ultimately show ?thesis using estimate_theta_range by blast
qed

lemma estimate_balanced:
  "estimate_theta adaptive_engine [1, 0] [0, 0] [1, 1] = Inr (0, 1 / sqrt (1 / 2))"
  by (simp add: estimate_theta_def estimate_theta_traced_def adaptive_engine_def
        IRTParameters_init_def eval_nat_numeral Let_def)

text \<open>An instance of C8: two items of difficulty 0 and discrimination 1, one endorsed.\<close>
theorem theta_within_bounds_witness:
  "estimate_theta adaptive_engine [1, 0] [0, 0] [1, 1] = Inr (0, 1 / sqrt (1 / 2))
   \<and> min_theta (irt_params adaptive_engine) \<le> 0 \<and> 0 \<le> max_theta (irt_params adaptive_engine)"
  using theta_within_bounds [of "[1, 0]" "[0, 0]" "[1, 1]" "[]" "[]" "\<lambda>d. []" Openness]
    estimate_balanced by blast

section \<open>The item selector\<close>

lemma min_from_decomposition:
  "\<exists>pre m post. best # xs = pre @ m # post \<and> min_from key best xs = m
     \<and> (\<forall>x\<in>set pre. key m < key x) \<and> (\<forall>x\<in>set post. key m \<le> key x)"
proof (induction xs arbitrary: best)
  case Nil
  have "[best] = [] @ best # []" by simp
  then show ?case by fastforce
next
  case (Cons y ys)
  show ?case
  proof (cases "key y < key best")
    case True
    from Cons.IH [of y] obtain pre m post where
      d: "y # ys = pre @ m # post" "min_from key y ys = m"
         "\<forall>x\<in>set pre. key m < key x" "\<forall>x\<in>set post. key m \<le> key x"
      by blast
    have "key m \<le> key y"
    proof (cases pre)
      case Nil
      with d(1) show ?thesis by simp
    next
      case (Cons p ps)
      with d(1) have "p = y" by simp
      with Cons d(3) show ?thesis by simp
    qed
    with True have "key m < key best" by simp
    moreover have "best # y # ys = (best # pre) @ m # post" using d(1) by simp
    moreover have "min_from key best (y # ys) = m" using True d(2) by simp
    ultimately show ?thesis using d(3,4)
      by (intro exI [of _ "best # pre"] exI [of _ m] exI [of _ post]) simp
  next
    case False
    from Cons.IH [of best] obtain pre m post where
      d: "best # ys = pre @ m # post" "min_from key best ys = m"
         "\<forall>x\<in>set pre. key m < key x" "\<forall>x\<in>set post. key m \<le> key x"
      by blast
    have mb: "key m \<le> key best"
    proof (cases pre)
      case Nil
      with d(1) show ?thesis by simp
    next
      case (Cons p ps)
      with d(1) have "p = best" by simp
      with Cons d(3) show ?thesis by simp
    qed
    have mf: "min_from key best (y # ys) = m" using False d(2) by simp
    show ?thesis
    proof (cases pre)
      case Nil
      with d(1) have "m = best" "post = ys" by simp_all
      then have "best # y # ys = [] @ m # (y # post)" by simp
      moreover have "\<forall>x\<in>set (y # post). key m \<le> key x"
        using d(4) False \<open>m = best\<close> by auto
      ultimately show ?thesis using mf
        by (intro exI [of _ "[]"] exI [of _ m] exI [of _ "y # post"]) simp
    next
      case (Cons p ps)
      with d(1) have p: "p = best" "ys = ps @ m # post" by simp_all
      have "best # y # ys = (best # y # ps) @ m # post" using p by simp
      moreover have "key m < key best" using Cons d(3) p(1) by simp
      moreover have "key m < key y" using False \<open>key m < key best\<close> by simp
      moreover have "\<forall>x\<in>set ps. key m < key x" using Cons d(3) by simp
      ultimately show ?thesis using mf d(4)
        by (intro exI [of _ "best # y # ps"] exI [of _ m] exI [of _ post]) simp
    qed
  qed
qed

lemma py_min_first_least:
  assumes "xs \<noteq> []"
  shows "\<exists>pre m post. xs = pre @ m # post \<and> py_min key xs = Inr m
     \<and> (\<forall>x\<in>set pre. key m < key x) \<and> (\<forall>x\<in>set post. key m \<le> key x)"
proof -
  obtain b rest where xs: "xs = b # rest" using assms by (cases xs) auto
  from min_from_decomposition [of b rest key] show ?thesis
    by (simp add: xs py_min_def)
qed

text \<open>C6: when the dimension has at least one recorded answer and items remain, the
  selection returns an item of the remaining ones (the items of the pool whose identifier
  is not among the answered ones, in pool order) whose difficulty is nearest to the current
  ability estimate: every remaining item before it in pool order is strictly further
  from the estimate, and no remaining item after it is nearer.\<close>
theorem select_question_closest:
  assumes "questions_answered s d \<noteq> []" and "available_questions s d \<noteq> []"
  shows "available_questions s d
           = filter (\<lambda>q. question_id q \<notin> set (map aq_question_id (questions_answered s d)))
               (generated_questions s d)
       \<and> (\<exists>pre q post.
           available_questions s d = pre @ q # post
         \<and> select_question r s d = Inr q
         \<and> (\<forall>x\<in>set pre. \<bar>difficulty q - theta s d\<bar> < \<bar>difficulty x - theta s d\<bar>)
         \<and> (\<forall>x\<in>set post. \<bar>difficulty q - theta s d\<bar> \<le> \<bar>difficulty x - theta s d\<bar>))"
proof -
  have sel: "select_question r s d
               = py_min (\<lambda>q. \<bar>difficulty q - theta s d\<bar>) (available_questions s d)"
    using assms(1) by (simp add: select_question_def answered_ids_def Let_def)
  have "available_questions s d
           = filter (\<lambda>q. question_id q \<notin> set (map aq_question_id (questions_answered s d)))
               (generated_questions s d)"
    by (simp add: available_questions_def answered_ids_def)
  moreover from py_min_first_least [OF assms(2), of "\<lambda>q. \<bar>difficulty q - theta s d\<bar>"]
  have "\<exists>pre q post.
           available_questions s d = pre @ q # post
         \<and> select_question r s d = Inr q
         \<and> (\<forall>x\<in>set pre. \<bar>difficulty q - theta s d\<bar> < \<bar>difficulty x - theta s d\<bar>)
         \<and> (\<forall>x\<in>set post. \<bar>difficulty q - theta s d\<bar> \<le> \<bar>difficulty x - theta s d\<bar>)"
    unfolding sel by blast
  ultimately show ?thesis by blast
qed

lemma random_choice_mem: "random_choice r xs = Inr q \<Longrightarrow> q \<in> set xs"
  by (auto simp add: random_choice_def split: if_splits)

lemma min_from_mem: "min_from key best xs \<in> set (best # xs)"
  by (induction xs arbitrary: best) (auto split: if_splits)

lemma py_min_mem: "py_min key xs = Inr q \<Longrightarrow> q \<in> set xs"
  using min_from_mem [of key] by (auto simp add: py_min_def split: list.splits)

lemma select_question_available:
  assumes "select_question r s d = Inr q"
  shows "q \<in> set (available_questions s d)"
proof -
  let ?av = "available_questions s d"
  let ?med = "filter (\<lambda>q. - 0.5 \<le> difficulty q \<and> difficulty q \<le> 0.5) ?av"
  consider (first_medium) "random_choice r ?med = Inr q"
    | (first_any) "random_choice r ?av = Inr q"
    | (closest) "py_min (\<lambda>q. \<bar>difficulty q - theta s d\<bar>) ?av = Inr q"
    using assms by (auto simp add: select_question_def Let_def split: if_splits)
  then show ?thesis
  proof cases
    case first_medium
    then have "q \<in> set ?med" by (rule random_choice_mem)
    then show ?thesis by simp
  next
    case first_any
    then show ?thesis by (rule random_choice_mem)
  next
    case closest
    then show ?thesis by (rule py_min_mem)
  qed
qed

lemma get_current_question_available:
  assumes "snd (get_current_question r s) = Inr q"
  shows "q \<in> set (available_questions (fst (get_current_question r s))
                    (current_dimension (fst (get_current_question r s))))"
  using assms
  by (auto simp add: get_current_question_def Let_def select_question_available
           split: option.splits sum.splits if_splits)

lemma find_question_mem:
  "q \<in> set qs \<Longrightarrow> \<exists>q0. find_question (question_id q) qs = Some q0"
  by (induction qs) auto

lemma available_questions_fresh:
  "q \<in> set (available_questions s d)
     \<Longrightarrow> question_id q \<notin> set (answered_ids s d) \<and> q \<in> set (generated_questions s d)"
  by (simp add: available_questions_def)

lemma administer_distinct:
  assumes "\<forall>d. distinct (answered_ids s d)"
  shows "\<forall>d. distinct (answered_ids (administer s step) d)"
proof -
  obtain r response where step: "step = (r, response)" by (cases step) auto
  let ?s' = "fst (get_current_question r s)"
  have same: "answered_ids ?s' = answered_ids s"
    by (intro ext) (simp add: answered_ids_def get_current_question_fields)
  show ?thesis
  proof (cases "snd (get_current_question r s)")
    case (Inl e)
    then have "administer s step = ?s'"
      by (cases "get_current_question r s") (simp add: step)
    then show ?thesis using assms same by simp
  next
    case (Inr q)
    then have adm: "administer s step = fst (submit_answer (question_id q) response ?s')"
      by (cases "get_current_question r s") (simp add: step)
    let ?c = "current_dimension ?s'"
    from get_current_question_available [OF Inr]
    have fresh: "question_id q \<notin> set (answered_ids ?s' ?c)"
      and mem: "q \<in> set (generated_questions ?s' ?c)"
      using available_questions_fresh by blast+
    from find_question_mem [OF mem] obtain q0 where
      found: "find_question (question_id q) (generated_questions ?s' ?c) = Some q0" by blast
    have qa: "questions_answered (administer s step) =
            (questions_answered ?s')(?c := questions_answered ?s' ?c @
               [\<lparr> aq_question_id = question_id q, aq_response = response,
                  aq_difficulty = difficulty q0, aq_discrimination = discrimination q0,
                  aq_reverse_scored = reverse_scored q0 \<rparr>])"
      unfolding adm submit_answer_answers found by simp
    have old: "\<forall>d. distinct (answered_ids ?s' d)" using assms same by simp
    show ?thesis
    proof
      fix d
      show "distinct (answered_ids (administer s step) d)"
      proof (cases "d = ?c")
        case True
        have "answered_ids (administer s step) d = answered_ids ?s' ?c @ [question_id q]"
          by (simp add: answered_ids_def qa True)
        then show ?thesis using old fresh by simp
      next
        case False
        then have "answered_ids (administer s step) d = answered_ids ?s' d"
          by (simp add: answered_ids_def qa)
        then show ?thesis using old by simp
      qed
    qed
  qed
qed

lemma administer_all_distinct:
  "\<forall>d. distinct (answered_ids s d) \<Longrightarrow> \<forall>d. distinct (answered_ids (administer_all steps s) d)"
  unfolding administer_all_def
proof (induction steps arbitrary: s)
  case Nil
  then show ?case by simp
next
  case (Cons step steps)
  from administer_distinct [OF Cons.prems] have "\<forall>d. distinct (answered_ids (administer s step) d)" .
  from Cons.IH [OF this] show ?case by simp
qed

text \<open>C7, as amended: \<open>get_current_question\<close> never returns an item whose identifier is
  among the answers of the dimension it serves; and in a session whose client submits,
  each time, an answer for the item it has just been given, no identifier occurs twice
  among the answers of a dimension.\<close>
theorem no_item_selected_twice:
  "(\<forall>q. snd (get_current_question r s) = Inr q
        \<longrightarrow> question_id q \<notin> set (answered_ids (fst (get_current_question r s))
                                      (current_dimension (fst (get_current_question r s)))))
   \<and> distinct (answered_ids (administer_all steps (create_session nm pools)) d)"
proof -
  have "\<forall>d. distinct (answered_ids (create_session nm pools) d)"
    by (simp add: answered_ids_def create_session_def)
  from administer_all_distinct [OF this]
  have "distinct (answered_ids (administer_all steps (create_session nm pools)) d)" by blast
  then show ?thesis
    using get_current_question_available available_questions_fresh by blast
qed

text \<open>C7, as stated, fails: \<open>submit_answer\<close> accepts an identifier that is answered
  already, and the two answers are both recorded.\<close>
theorem same_item_submitted_twice:
  "\<not> distinct (answered_ids (run [SubmitAnswer ''o1'' 5, SubmitAnswer ''o1'' 5] new_session) Openness)"
  by (simp add: run_def answered_ids_def submit_answer_answers submit_answer_frame
        new_session_def create_session_def sample_pools_def sample_pool_def bank_items_def)

lemma answered_once_facts:
  "questions_answered answered_once Openness \<noteq> []"
  "available_questions answered_once Openness \<noteq> []"
  by (simp_all add: answered_once_def run_def available_questions_def answered_ids_def
        submit_answer_answers submit_answer_frame new_session_def create_session_def
        sample_pools_def sample_pool_def bank_items_def)

text \<open>An instance of C6: the sample session after one answer.\<close>
theorem select_question_closest_witness:
  "questions_answered answered_once Openness \<noteq> []
   \<and> available_questions answered_once Openness \<noteq> []
   \<and> (\<exists>pre q post.
           available_questions answered_once Openness = pre @ q # post
         \<and> select_question 0 answered_once Openness = Inr q
         \<and> (\<forall>x\<in>set pre. \<bar>difficulty q - theta answered_once Openness\<bar>
                            < \<bar>difficulty x - theta answered_once Openness\<bar>)
         \<and> (\<forall>x\<in>set post. \<bar>difficulty q - theta answered_once Openness\<bar>
                            \<le> \<bar>difficulty x - theta answered_once Openness\<bar>))"
  using select_question_closest [OF answered_once_facts, of 0] answered_once_facts by blast

lemma get_current_question_answered_once:
  "\<exists>q. snd (get_current_question 0 answered_once) = Inr q"
proof -
  have cur: "current_dimension answered_once = Openness"
    and nm: "name answered_once = ''Amira''"
    by (simp_all add: answered_once_def run_def submit_answer_frame new_session_def
          create_session_def)
  have qa: "length (questions_answered answered_once Openness) = 1"
    by (simp add: answered_once_def run_def submit_answer_answers new_session_def
          create_session_def sample_pools_def sample_pool_def bank_items_def)
  have "engine_invariant answered_once"
    unfolding answered_once_def new_session_def by (rule engine_invariant_reachable)
  then have cnt: "dimension_question_count answered_once Openness = 1"
    using qa by (simp add: engine_invariant_def)
  have ids: "answered_ids answered_once Openness \<noteq> []"
    using answered_once_facts(1) by (simp add: answered_ids_def)
  from py_min_first_least [OF answered_once_facts(2),
          of "\<lambda>q. \<bar>difficulty q - theta answered_once Openness\<bar>"]
  obtain q where "py_min (\<lambda>q. \<bar>difficulty q - theta answered_once Openness\<bar>)
                    (available_questions answered_once Openness) = Inr q" by blast
  then have sel: "select_question 0 answered_once Openness = Inr q"
    using ids by (simp add: select_question_def Let_def)
  have "snd (get_current_question 0 answered_once) = Inr q"
    by (simp add: get_current_question_def Let_def cur cnt sel nm adaptive_engine_def
          IRTParameters_init_def first_name_raises_def py_isspace_def)
  then show ?thesis by blast
qed

lemma answered_once_ids:
  "answered_ids (fst (get_current_question 0 answered_once))
     (current_dimension (fst (get_current_question 0 answered_once))) = [''o1'']"
proof -
  have cur: "current_dimension answered_once = Openness"
    by (simp add: answered_once_def run_def submit_answer_frame new_session_def create_session_def)
  have qa: "length (questions_answered answered_once Openness) = 1"
    by (simp add: answered_once_def run_def submit_answer_answers new_session_def
          create_session_def sample_pools_def sample_pool_def bank_items_def)
  have "engine_invariant answered_once"
    unfolding answered_once_def new_session_def by (rule engine_invariant_reachable)
  then have cnt: "dimension_question_count answered_once Openness = 1"
    using qa by (simp add: engine_invariant_def)
  have same: "current_dimension (fst (get_current_question 0 answered_once)) = Openness"
    by (simp add: get_current_question_def Let_def cur cnt adaptive_engine_def
          IRTParameters_init_def split: sum.splits)
  show ?thesis
    unfolding same
    by (simp add: answered_ids_def get_current_question_fields answered_once_def run_def
          submit_answer_answers new_session_def create_session_def sample_pools_def
          sample_pool_def bank_items_def)
qed

text \<open>An instance of C7: the sample session after one answer, for \<open>o1\<close>; the item
  returned next is not \<open>o1\<close>.\<close>
theorem no_item_selected_twice_witness:
  "(\<exists>q. snd (get_current_question 0 answered_once) = Inr q
        \<and> question_id q \<notin> set (answered_ids (fst (get_current_question 0 answered_once))
                   (current_dimension (fst (get_current_question 0 answered_once)))))
   \<and> answered_ids (fst (get_current_question 0 answered_once))
        (current_dimension (fst (get_current_question 0 answered_once))) = [''o1'']"
proof -
  from get_current_question_answered_once obtain q where
    q: "snd (get_current_question 0 answered_once) = Inr q" by blast
  have "question_id q \<notin> set (answered_ids (fst (get_current_question 0 answered_once))
                   (current_dimension (fst (get_current_question 0 answered_once))))"
    using no_item_selected_twice [of 0 answered_once "[]" "[]" "\<lambda>d. []" Openness] q by blast
  with q show ?thesis using answered_once_ids by blast
qed

section \<open>Completed sessions\<close>

lemma run_append: "run (a @ b) s = run b (run a s)"
  by (simp add: run_def)

lemma handle_generated_questions: "generated_questions (handle s req) = generated_questions s"
  by (cases req) (simp_all add: submit_answer_frame get_current_question_fields)

lemma run_generated_questions: "generated_questions (run reqs s) = generated_questions s"
  unfolding run_def by (induction reqs arbitrary: s) (simp_all add: handle_generated_questions)

lemma submit_answer_total:
  assumes "find_question qid (generated_questions s (current_dimension s)) = Some q"
  shows "total_questions_answered (fst (submit_answer qid r s)) = Suc (total_questions_answered s)"
proof -
  from submit_answer_found [OF assms, of r] obtain t e where
    "fst (submit_answer qid r s) =
               check_completion
                 ((record_answer qid r q s)
                    \<lparr>theta := (theta s)(current_dimension s := t),
                     se := (se s)(current_dimension s := e),
                     total_questions_answered := Suc (total_questions_answered s)\<rparr>)"
    by blast
  then show ?thesis by (simp add: check_completion_fields)
qed

lemma run_submits:
  assumes "\<forall>qid\<in>set ids. find_question qid (generated_questions s (current_dimension s)) \<noteq> None"
  shows "current_dimension (run (map (\<lambda>qid. SubmitAnswer qid r) ids) s) = current_dimension s
       \<and> total_questions_answered (run (map (\<lambda>qid. SubmitAnswer qid r) ids) s)
           = total_questions_answered s + length ids
       \<and> length (questions_answered (run (map (\<lambda>qid. SubmitAnswer qid r) ids) s) (current_dimension s))
           = length (questions_answered s (current_dimension s)) + length ids"
  using assms
proof (induction ids arbitrary: s)
  case Nil
  then show ?case by (simp add: run_def)
next
  case (Cons qid ids)
  let ?s1 = "fst (submit_answer qid r s)"
  obtain q where found: "find_question qid (generated_questions s (current_dimension s)) = Some q"
    using Cons.prems by auto
  have c1: "current_dimension ?s1 = current_dimension s"
    and g1: "generated_questions ?s1 = generated_questions s"
    by (simp_all add: submit_answer_frame)
  have t1: "total_questions_answered ?s1 = Suc (total_questions_answered s)"
    using found by (rule submit_answer_total)
  have l1: "length (questions_answered ?s1 (current_dimension s))
              = Suc (length (questions_answered s (current_dimension s)))"
    by (simp add: submit_answer_answers found)
  have "\<forall>qid\<in>set ids. find_question qid (generated_questions ?s1 (current_dimension ?s1)) \<noteq> None"
    using Cons.prems by (simp add: c1 g1)
  from Cons.IH [OF this]
  have "current_dimension (run (map (\<lambda>qid. SubmitAnswer qid r) ids) ?s1) = current_dimension s
       \<and> total_questions_answered (run (map (\<lambda>qid. SubmitAnswer qid r) ids) ?s1)
           = Suc (total_questions_answered s) + length ids
       \<and> length (questions_answered (run (map (\<lambda>qid. SubmitAnswer qid r) ids) ?s1) (current_dimension s))
           = Suc (length (questions_answered s (current_dimension s))) + length ids"
    by (simp only: c1 t1 l1)
  moreover have "run (map (\<lambda>qid. SubmitAnswer qid r) (qid # ids)) s
                   = run (map (\<lambda>qid. SubmitAnswer qid r) ids) ?s1"
    by (simp add: run_def)
  ultimately show ?case by simp
qed

lemma get_current_question_advance:
  assumes "dimension_question_count s (current_dimension s) \<ge> 10"
    and "next_in questions_db_keys (current_dimension s) = Some d'"
  shows "current_dimension (fst (get_current_question r s)) = d'"
  using assms
  by (simp add: get_current_question_def Let_def adaptive_engine_def IRTParameters_init_def
           split: sum.splits)

lemma sample_pools_found:
  "\<forall>qid\<in>set (map question_id (sample_pools d)). find_question qid (sample_pools d) \<noteq> None"
  using find_question_mem by fastforce

lemma sample_pools_length: "length (sample_pools d) = 10"
  by (simp add: sample_pools_def sample_pool_def bank_items_def)

lemma answer_all_round:
  assumes inv: "engine_invariant s"
    and pools: "generated_questions s = sample_pools"
  shows "current_dimension (run (answer_all (current_dimension s)) s) = current_dimension s"
    and "total_questions_answered (run (answer_all (current_dimension s)) s)
           = total_questions_answered s + 10"
    and "dimension_question_count (run (answer_all (current_dimension s)) s) (current_dimension s) \<ge> 10"
    and "engine_invariant (run (answer_all (current_dimension s)) s)"
    and "generated_questions (run (answer_all (current_dimension s)) s) = sample_pools"
proof -
  let ?d = "current_dimension s"
  let ?s' = "run (answer_all ?d) s"
  have "\<forall>qid\<in>set (map question_id (sample_pools ?d)).
           find_question qid (generated_questions s ?d) \<noteq> None"
    unfolding pools by (rule sample_pools_found)
  from run_submits [OF this, of 3]
  have r: "current_dimension ?s' = ?d"
    "total_questions_answered ?s' = total_questions_answered s + 10"
    "length (questions_answered ?s' ?d) = length (questions_answered s ?d) + 10"
    by (simp_all add: answer_all_def sample_pools_length)
  show "current_dimension ?s' = ?d" by (rule r(1))
  show "total_questions_answered ?s' = total_questions_answered s + 10" by (rule r(2))
  show inv': "engine_invariant ?s'" using inv by (rule engine_invariant_run)
  then have "dimension_question_count ?s' ?d = length (questions_answered ?s' ?d)"
    by (simp add: engine_invariant_def)
  then show "dimension_question_count ?s' ?d \<ge> 10" using r(3) by simp
  show "generated_questions ?s' = sample_pools"
    by (simp add: run_generated_questions pools)
qed

lemma next_round:
  assumes inv: "engine_invariant s"
    and pools: "generated_questions s = sample_pools"
    and nxt: "next_in questions_db_keys (current_dimension s) = Some d'"
  shows "current_dimension (run (answer_all (current_dimension s) @ [GetQuestion r]) s) = d'"
    and "total_questions_answered (run (answer_all (current_dimension s) @ [GetQuestion r]) s)
           = total_questions_answered s + 10"
    and "engine_invariant (run (answer_all (current_dimension s) @ [GetQuestion r]) s)"
    and "generated_questions (run (answer_all (current_dimension s) @ [GetQuestion r]) s) = sample_pools"
proof -
  let ?s1 = "run (answer_all (current_dimension s)) s"
  note a = answer_all_round [OF inv pools]
  have run: "run (answer_all (current_dimension s) @ [GetQuestion r]) s = fst (get_current_question r ?s1)"
    by (simp add: run_append) (simp add: run_def)
  have n1: "next_in questions_db_keys (current_dimension ?s1) = Some d'"
    using nxt a(1) by simp
  have c1: "dimension_question_count ?s1 (current_dimension ?s1) \<ge> 10"
    using a(3) a(1) by simp
  show "current_dimension (run (answer_all (current_dimension s) @ [GetQuestion r]) s) = d'"
    unfolding run using c1 n1 by (rule get_current_question_advance)
  show "total_questions_answered (run (answer_all (current_dimension s) @ [GetQuestion r]) s)
           = total_questions_answered s + 10"
    unfolding run by (simp add: get_current_question_fields a(2))
  show "engine_invariant (run (answer_all (current_dimension s) @ [GetQuestion r]) s)"
    using inv by (rule engine_invariant_run)
  show "generated_questions (run (answer_all (current_dimension s) @ [GetQuestion r]) s) = sample_pools"
    by (simp add: run_generated_questions pools)
qed

lemma run_Nil: "run [] s = s"
  by (simp add: run_def)

lemma run_Cons: "run (req # reqs) s = run reqs (handle s req)"
  by (simp add: run_def)

lemma completed_session_facts:
  "status completed_session = Completed"
  "current_dimension completed_session = Neuroticism"
  "generated_questions completed_session = sample_pools"
  "total_questions_answered completed_session = 50"
proof -
  define s1 where "s1 = run (answer_all Openness @ [GetQuestion 0]) new_session"
  define s2 where "s2 = run (answer_all Conscientiousness @ [GetQuestion 0]) s1"
  define s3 where "s3 = run (answer_all Extraversion @ [GetQuestion 0]) s2"
  define s4 where "s4 = run (answer_all Agreeableness @ [GetQuestion 0]) s3"
  define s5 where "s5 = run (answer_all Neuroticism) s4"
  have cs: "completed_session = s5"
    by (simp add: completed_session_def full_assessment_def run_append run_Nil run_Cons
          s1_def s2_def s3_def s4_def s5_def)
  have i0: "engine_invariant new_session"
    unfolding new_session_def by (rule engine_invariant_create)
  have p0: "generated_questions new_session = sample_pools"
    and c0: "current_dimension new_session = Openness"
    and t0: "total_questions_answered new_session = 0"
    by (simp_all add: new_session_def create_session_def)
  have n0: "next_in questions_db_keys (current_dimension new_session) = Some Conscientiousness"
    by (simp add: c0 questions_db_keys_def)
  note r1 = next_round [OF i0 p0 n0, of 0, unfolded c0, folded s1_def]
  have n1: "next_in questions_db_keys (current_dimension s1) = Some Extraversion"
    by (simp add: r1(1) questions_db_keys_def)
  note r2 = next_round [OF r1(3) r1(4) n1, of 0, unfolded r1(1), folded s2_def]
  have n2: "next_in questions_db_keys (current_dimension s2) = Some Agreeableness"
    by (simp add: r2(1) questions_db_keys_def)
  note r3 = next_round [OF r2(3) r2(4) n2, of 0, unfolded r2(1), folded s3_def]
  have n3: "next_in questions_db_keys (current_dimension s3) = Some Neuroticism"
    by (simp add: r3(1) questions_db_keys_def)
  note r4 = next_round [OF r3(3) r3(4) n3, of 0, unfolded r3(1), folded s4_def]
  note r5 = answer_all_round [OF r4(3) r4(4), unfolded r4(1), folded s5_def]
  have t5: "total_questions_answered s5 = 50"
    using r5(2) r4(2) r3(2) r2(2) r1(2) t0 by simp
  have "total_answered_all s5 = 50"
    using r5(4) t5 by (simp add: engine_invariant_def)
  then have "global_completion s5"
    by (simp add: global_completion_def adaptive_engine_def IRTParameters_init_def)
  then have "status s5 = Completed"
    using r5(4) by (simp add: engine_invariant_def)
  then show "status completed_session = Completed" by (simp add: cs)
  show "current_dimension completed_session = Neuroticism" using r5(1) by (simp add: cs)
  show "generated_questions completed_session = sample_pools" using r5(5) by (simp add: cs)
  show "total_questions_answered completed_session = 50" using t5 by (simp add: cs)
qed

text \<open>C3, as stated, fails: the sample session is completed after its fifty answers, and
  \<open>submit_answer\<close> still records a further answer and increments the total.\<close>
theorem completed_session_still_mutated:
  "status completed_session = Completed
   \<and> total_questions_answered (fst (submit_answer ''n1'' 3 completed_session))
       = Suc (total_questions_answered completed_session)
   \<and> length (questions_answered (fst (submit_answer ''n1'' 3 completed_session)) Neuroticism)
       = Suc (length (questions_answered completed_session Neuroticism))"
proof -
  have found: "find_question ''n1'' (generated_questions completed_session
                                     (current_dimension completed_session))
         = Some \<lparr> question_id = ''n1'', q_text = [], difficulty = - 1.2, discrimination = 1.5,
                  reverse_scored = False \<rparr>"
    by (simp add: completed_session_facts sample_pools_def sample_pool_def bank_items_def)
  have "total_questions_answered (fst (submit_answer ''n1'' 3 completed_session))
       = Suc (total_questions_answered completed_session)"
    using found by (rule submit_answer_total)
  moreover have "length (questions_answered (fst (submit_answer ''n1'' 3 completed_session)) Neuroticism)
       = Suc (length (questions_answered completed_session Neuroticism))"
    unfolding submit_answer_answers found by (simp add: completed_session_facts)
  ultimately show ?thesis using completed_session_facts(1) by blast
qed

text \<open>C3, as amended: a completed session stays completed under every sequence of
  requests, and \<open>get_current_question\<close> changes neither the answers nor the estimates,
  standard errors and counters of a session.\<close>
theorem completed_is_terminal:
  "(status s = Completed \<longrightarrow> status (run reqs s) = Completed)
   \<and> questions_answered (fst (get_current_question r s)) = questions_answered s
   \<and> theta (fst (get_current_question r s)) = theta s
   \<and> se (fst (get_current_question r s)) = se s
   \<and> dimension_question_count (fst (get_current_question r s)) = dimension_question_count s
   \<and> total_questions_answered (fst (get_current_question r s)) = total_questions_answered s"
  using run_completed [of s reqs] by (simp add: get_current_question_fields)

text \<open>An instance of C3: the completed sample session after two more requests.\<close>
theorem completed_is_terminal_witness:
  "status completed_session = Completed
   \<and> status (run [SubmitAnswer ''n1'' 3, GetQuestion 0] completed_session) = Completed"
  using completed_is_terminal [of completed_session "[SubmitAnswer ''n1'' 3, GetQuestion 0]" 0]
    completed_session_facts(1) by blast

end
